theory Spec2Isabelle
  imports Main "HOL-Library.AList"
begin

section \<open>Data model\<close>

text \<open>
  Exception classes that the modelled code raises or tests for.  \<open>C_ExitContext\<close> is the
  module's private \<open>_ExitContext\<close> class; \<open>C_User\<close> stands for any other class,
  including classes derived from the ones listed.
\<close>

datatype exc_class =
    C_ExitContext
  | C_NameError
  | C_KeyError
  | C_AttributeError
  | C_IndexError
  | C_AssertionError
  | C_NotImplementedError
  | C_UnboundLocalError
  | C_TypeError
  | C_User string

text \<open>Labels of an abstract instruction sequence: those the decoder placed, and those
  created afresh by the rewriter (each \<open>Label()\<close> call yields a new object).\<close>

datatype label = Code_label nat | New_label nat

text \<open>
  Python objects as far as the code inspects them.  \<open>PObj n\<close> is an object known only by
  its identity; \<open>PUnset\<close> is the absent argument of an instruction; \<open>PDummy\<close> is the
  placeholder object made by \<open>_run_as_clause\<close>; \<open>PLoadName\<close> is the function
  \<open>load_name\<close> itself and \<open>PFrame n\<close> the frame object with identity \<open>n\<close>, both of
  which the rewriter embeds as constants, as it does an exception class (\<open>PExcClass\<close>);
  \<open>PLabel\<close> is a jump target and \<open>PCompare\<close> the operation of a comparison.
  \<open>PCellVar\<close> and \<open>PFreeVar\<close> are the objects \<open>CellVar(name)\<close> and \<open>FreeVar(name)\<close> of the
  bytecode library, which the arguments of the closure-cell instructions are: such an object
  is equal to another object of its own class with the same name and to nothing else, so it
  is never equal to a string.
\<close>

datatype pyval =
    PNone
  | PUnset
  | PDummy
  | PInt int
  | PStr string
  | PObj nat
  | PExcClass exc_class
  | PLoadName
  | PFrame nat
  | PLabel label
  | PCompare string
  | PCellVar string
  | PFreeVar string

datatype exc = Exc (exc_type: exc_class) (exc_arg: pyval)

text \<open>An element of an abstract instruction sequence: an instruction (operation name and
  argument) or a label.\<close>

datatype elem = Instr string pyval | Label label

text \<open>A concrete instruction, of which the extractor reads only the size in bytes.\<close>

record concrete_instr =
  c_name :: string
  c_arg :: nat
  c_size :: nat

record code_obj =
  co_code :: "nat list"

text \<open>Trace hooks a frame or the interpreter can hold: this module's dispatcher, its
  do-nothing hook, or a hook installed by other tooling.\<close>

datatype trace = Invoke_trace_funcs | Dummy_sys_trace | Foreign_trace nat

text \<open>A dictionary: an association list in insertion order, whose keys are Python objects
  (variable names are \<open>PStr\<close> values).\<close>

type_synonym dict = "(pyval \<times> pyval) list"

record frame =
  f_id :: nat
  f_code :: code_obj
  f_lasti :: nat
  f_locals :: dict
  f_globals :: dict
  f_builtins :: dict
  f_trace :: "trace option"

section \<open>Name resolver (frameutils.load_name)\<close>

definition load_name :: "frame \<Rightarrow> pyval \<Rightarrow> exc + pyval" where
  "load_name frame name =
     (case map_of (f_locals frame) name of
        Some v \<Rightarrow> Inr v
      | None \<Rightarrow>
          (case map_of (f_globals frame) name of
             Some v \<Rightarrow> Inr v
           | None \<Rightarrow>
               (case map_of (f_builtins frame) name of
                  Some v \<Rightarrow> Inr v
                | None \<Rightarrow> Inl (Exc C_NameError name))))"

section \<open>Code extractor (frameutils.extract_code)\<close>

definition is_instr :: "elem \<Rightarrow> bool" where
  "is_instr b = (case b of Instr _ _ \<Rightarrow> True | Label _ \<Rightarrow> False)"

text \<open>Body of the first loop: \<open>at\<close> accumulates the sizes, and each of the two counters
  advances while the accumulated size stays below its offset.\<close>

definition scan_step ::
  "nat \<Rightarrow> nat \<Rightarrow> concrete_instr \<Rightarrow> nat \<times> nat \<times> nat \<Rightarrow> nat \<times> nat \<times> nat" where
  "scan_step start end c s =
     (case s of (at, start_c, end_c) \<Rightarrow>
        (let at' = at + c_size c
         in (at', if at' < start then start_c + 1 else start_c,
                  if at' < end then end_c + 1 else end_c)))"

definition concrete_indices :: "nat \<Rightarrow> nat \<Rightarrow> concrete_instr list \<Rightarrow> nat \<times> nat" where
  "concrete_indices start end concrete_bc =
     (case fold (scan_step start end) concrete_bc (0, 0, 0) of
        (at, start_c, end_c) \<Rightarrow> (start_c, end_c))"

text \<open>Body of the second loop over \<open>enumerate(bc)\<close>: the position is recorded whenever the
  number of instructions seen so far equals the wanted index, and only instructions are
  counted.\<close>

definition index_step ::
  "nat \<Rightarrow> nat \<Rightarrow> nat \<times> elem \<Rightarrow> nat \<times> nat option \<times> nat option
     \<Rightarrow> nat \<times> nat option \<times> nat option" where
  "index_step start_c end_c ib s =
     (case ib of (i, b) \<Rightarrow>
        (case s of (at, start_b, end_b) \<Rightarrow>
           (if is_instr b then at + 1 else at,
            if at = start_c then Some i else start_b,
            if at = end_c then Some i else end_b)))"

definition bytecode_indices ::
  "nat \<Rightarrow> nat \<Rightarrow> elem list \<Rightarrow> nat \<times> nat option \<times> nat option" where
  "bytecode_indices start_c end_c bc =
     fold (index_step start_c end_c) (enumerate 0 bc) (0, None, None)"

text \<open>The slice \<open>xs[lo:hi]\<close> for bounds that are absent or non-negative.\<close>

definition py_slice :: "nat option \<Rightarrow> nat option \<Rightarrow> 'a list \<Rightarrow> 'a list" where
  "py_slice lo hi xs =
     (let l = (case lo of None \<Rightarrow> 0 | Some i \<Rightarrow> i);
          h = (case hi of None \<Rightarrow> length xs | Some j \<Rightarrow> j)
      in drop l (take h xs))"

text \<open>
  The decoder \<open>ConcreteBytecode.from_code\<close> and the conversion \<open>to_bytecode\<close> belong to
  the bytecode library, which is not part of the repository: they are parameters.  A failed
  \<open>assert\<close> is the error \<open>AssertionError\<close>.
\<close>

definition extract_code ::
  "(code_obj \<Rightarrow> concrete_instr list) \<Rightarrow> (concrete_instr list \<Rightarrow> elem list) \<Rightarrow>
   frame \<Rightarrow> nat option \<Rightarrow> nat option \<Rightarrow> exc + elem list" where
  "extract_code from_code to_bytecode frame start end =
     (let code = f_code frame;
          start' = (case start of None \<Rightarrow> 0 | Some s \<Rightarrow> s);
          end' = (case end of None \<Rightarrow> length (co_code code) | Some e \<Rightarrow> e);
          concrete_bc = from_code code;
          bc = to_bytecode concrete_bc
      in (case concrete_indices start' end' concrete_bc of
            (start_c, end_c) \<Rightarrow>
              (case bytecode_indices start_c end_c bc of
                 (at, start_b, end_b) \<Rightarrow>
                   if at = length concrete_bc then Inr (py_slice start_b end_b bc)
                   else Inl (Exc C_AssertionError PNone))))"

section \<open>Instruction objects of the bytecode library\<close>

text \<open>
  The repository makes and renames instructions through the bytecode library.  The library
  checks the argument of an instruction against its operation when the instruction is made
  and again whenever its name is assigned, and raises \<open>TypeError\<close> when they do not fit: an
  operation on a closure cell takes a \<open>CellVar\<close> or \<open>FreeVar\<close> object, an operation on a
  local slot or on a name takes a string, and a constant is anything but a label.  The checks
  of the remaining operations concern arguments that the modelled code writes as literals and
  are not modelled.  The argument of the error stands for its message.
\<close>

definition is_cell :: "pyval \<Rightarrow> bool" where
  "is_cell v = (case v of PCellVar _ \<Rightarrow> True | PFreeVar _ \<Rightarrow> True | _ \<Rightarrow> False)"

definition is_str :: "pyval \<Rightarrow> bool" where
  "is_str v = (case v of PStr _ \<Rightarrow> True | _ \<Rightarrow> False)"

definition hasfree :: "string list" where
  "hasfree = [''LOAD_CLOSURE'', ''LOAD_DEREF'', ''STORE_DEREF'', ''DELETE_DEREF'',
              ''LOAD_CLASSDEREF'']"

definition haslocal :: "string list" where
  "haslocal = [''LOAD_FAST'', ''STORE_FAST'', ''DELETE_FAST'']"

definition hasname :: "string list" where
  "hasname = [''STORE_NAME'', ''DELETE_NAME'', ''STORE_ATTR'', ''DELETE_ATTR'',
              ''STORE_GLOBAL'', ''DELETE_GLOBAL'', ''LOAD_NAME'', ''LOAD_ATTR'',
              ''IMPORT_NAME'', ''IMPORT_FROM'', ''LOAD_GLOBAL'']"

definition check_arg :: "string \<Rightarrow> pyval \<Rightarrow> bool" where
  "check_arg name arg =
     (if name \<in> set hasfree then is_cell arg
      else if name \<in> set haslocal \<or> name \<in> set hasname then is_str arg
      else if name = ''LOAD_CONST'' then (case arg of PLabel _ \<Rightarrow> False | _ \<Rightarrow> True)
      else True)"

text \<open>\<open>Instr(name, arg)\<close>, and the assignment \<open>instr.name = name\<close> to an instruction whose
  argument is \<open>arg\<close>.\<close>

definition make_instr :: "string \<Rightarrow> pyval \<Rightarrow> exc + elem" where
  "make_instr name arg =
     (if check_arg name arg then Inr (Instr name arg) else Inl (Exc C_TypeError arg))"

text \<open>
  The test \<open>x in c\<close>.  A tuple or list is searched by equality.  A dictionary hashes \<open>x\<close>
  first, and the library's \<open>CellVar\<close> and \<open>FreeVar\<close> objects, which define equality and no
  hash, cannot be hashed: the test raises \<open>TypeError\<close>.
\<close>

datatype container = Seq "pyval list" | Dict dict

definition hashable :: "pyval \<Rightarrow> bool" where
  "hashable v = (\<not> is_cell v)"

definition contains :: "container \<Rightarrow> pyval \<Rightarrow> exc + bool" where
  "contains c x =
     (case c of
        Seq xs \<Rightarrow> Inr (x \<in> set xs)
      | Dict d \<Rightarrow> if hashable x then Inr (x \<in> set (map fst d)) else Inl (Exc C_TypeError x))"

section \<open>Function-mode rewriting (CaptureBytecode._change_lookups)\<close>

text \<open>
  The loop body for one element.  Labels are skipped.  \<open>args\<close> are the parameter names, a
  tuple or list; \<open>locals\<close> is the tuple \<open>()\<close> of the default or the dictionary that both
  callers pass.  The instruction is changed in place by assigning its name, which the library
  checks against the argument.
\<close>

definition change_lookup :: "pyval list \<Rightarrow> container \<Rightarrow> elem \<Rightarrow> exc + elem" where
  "change_lookup args locals instr =
     (case instr of
        Label l \<Rightarrow> Inr (Label l)
      | Instr name arg \<Rightarrow>
          if name \<in> set [''LOAD_FAST'', ''LOAD_DEREF'', ''LOAD_NAME'', ''LOAD_GLOBAL''] then
            (if arg \<in> set args then make_instr ''LOAD_FAST'' arg
             else if name \<in> set [''LOAD_FAST'', ''LOAD_DEREF''] then
               (case contains locals arg of
                  Inl e \<Rightarrow> Inl e
                | Inr found \<Rightarrow>
                    if found then make_instr ''LOAD_NAME'' arg
                    else make_instr ''LOAD_FAST'' arg)
             else Inr (Instr name arg))
          else if name \<in> set [''STORE_FAST'', ''STORE_DEREF'', ''STORE_NAME'', ''STORE_GLOBAL''] then
            (if arg \<in> set args then make_instr ''STORE_FAST'' arg
             else if name \<in> set [''STORE_FAST'', ''STORE_DEREF''] then
               (case contains locals arg of
                  Inl e \<Rightarrow> Inl e
                | Inr found \<Rightarrow>
                    if found then make_instr ''STORE_NAME'' arg
                    else make_instr ''STORE_FAST'' arg)
             else Inr (Instr name arg))
          else if name \<in> set [''DELETE_FAST'', ''DELETE_NAME'', ''DELETE_GLOBAL''] then
            (if arg \<in> set args then make_instr ''DELETE_FAST'' arg
             else if name \<in> set [''DELETE_FAST''] then
               (case contains locals arg of
                  Inl e \<Rightarrow> Inl e
                | Inr found \<Rightarrow>
                    if found then make_instr ''DELETE_NAME'' arg
                    else make_instr ''DELETE_FAST'' arg)
             else Inr (Instr name arg))
          else Inr (Instr name arg))"

text \<open>The loop: the elements are rewritten in order, and the first error ends the call.\<close>

fun change_lookups :: "pyval list \<Rightarrow> container \<Rightarrow> elem list \<Rightarrow> exc + elem list" where
  "change_lookups args locals [] = Inr []"
| "change_lookups args locals (instr # code) =
     (case change_lookup args locals instr of
        Inl e \<Rightarrow> Inl e
      | Inr instr' \<Rightarrow>
          (case change_lookups args locals code of
             Inl e \<Rightarrow> Inl e
           | Inr code' \<Rightarrow> Inr (instr' # code')))"

text \<open>The vocabulary of the rewriting: what an instruction does to a variable, and how it
  addresses it.\<close>

datatype access = Load | Store | Delete

datatype addressing = Fast | Deref | Name | Global

fun opname :: "access \<Rightarrow> addressing \<Rightarrow> string" where
  "opname Load Fast = ''LOAD_FAST''"
| "opname Load Deref = ''LOAD_DEREF''"
| "opname Load Name = ''LOAD_NAME''"
| "opname Load Global = ''LOAD_GLOBAL''"
| "opname Store Fast = ''STORE_FAST''"
| "opname Store Deref = ''STORE_DEREF''"
| "opname Store Name = ''STORE_NAME''"
| "opname Store Global = ''STORE_GLOBAL''"
| "opname Delete Fast = ''DELETE_FAST''"
| "opname Delete Deref = ''DELETE_DEREF''"
| "opname Delete Name = ''DELETE_NAME''"
| "opname Delete Global = ''DELETE_GLOBAL''"

section \<open>Frame trace injector (frameutils)\<close>

text \<open>
  An injected function receives the frame; it may change the frame or raise.  The state of the
  module is the interpreter's global hook (\<open>sys.gettrace()\<close>), \<open>_orig_sys_trace\<close> and the two
  tables, which are keyed by the identity of the frame.
\<close>

type_synonym callback = "frame \<Rightarrow> exc + frame"

record tracer =
  sys_trace :: "trace option"
  orig_sys_trace :: "trace option"
  orig_trace_funcs :: "(nat \<times> trace option) list"
  injected_trace_funcs :: "(nat \<times> callback list) list"

definition enable_tracing :: "tracer \<Rightarrow> tracer" where
  "enable_tracing t =
     (let t1 = t\<lparr> orig_sys_trace := sys_trace t \<rparr>
      in if orig_sys_trace t1 = None then t1\<lparr> sys_trace := Some Dummy_sys_trace \<rparr> else t1)"

definition disable_tracing :: "tracer \<Rightarrow> tracer" where
  "disable_tracing t = (if orig_sys_trace t = None then t\<lparr> sys_trace := None \<rparr> else t)"

definition inject_trace_func :: "tracer \<Rightarrow> frame \<Rightarrow> callback \<Rightarrow> exc + tracer \<times> frame" where
  "inject_trace_func t frame func =
     (case (if f_trace frame \<noteq> Some Invoke_trace_funcs then
              (let t1 = t\<lparr> orig_trace_funcs :=
                          AList.update (f_id frame) (f_trace frame) (orig_trace_funcs t) \<rparr>;
                   frame1 = frame\<lparr> f_trace := Some Invoke_trace_funcs \<rparr>;
                   t2 = t1\<lparr> injected_trace_funcs :=
                          AList.update (f_id frame) [] (injected_trace_funcs t1) \<rparr>;
                   t3 = (if length (orig_trace_funcs t2) = 1 then enable_tracing t2 else t2)
               in (t3, frame1))
            else (t, frame)) of
        (t', frame') \<Rightarrow>
          (case map_of (injected_trace_funcs t') (f_id frame) of
             None \<Rightarrow> Inl (Exc C_KeyError (PFrame (f_id frame)))
           | Some funcs \<Rightarrow>
               Inr (t'\<lparr> injected_trace_funcs :=
                        AList.update (f_id frame) (funcs @ [func]) (injected_trace_funcs t') \<rparr>,
                    frame')))"

text \<open>The \<open>for\<close> loop of \<open>_invoke_trace_funcs\<close>: the functions run in order, each on the
  frame as the previous one left it; the first exception ends the loop.\<close>

fun run_trace_funcs :: "callback list \<Rightarrow> frame \<Rightarrow> exc option \<times> frame" where
  "run_trace_funcs [] frame = (None, frame)"
| "run_trace_funcs (func # funcs) frame =
     (case func frame of
        Inl e \<Rightarrow> (Some e, frame)
      | Inr frame' \<Rightarrow> run_trace_funcs funcs frame')"

text \<open>
  \<open>_invoke_trace_funcs\<close> returns the exception that leaves it, if any, with the module state
  and the frame as they are then: the \<open>finally\<close> clause runs in either case.
\<close>

definition invoke_trace_funcs :: "tracer \<Rightarrow> frame \<Rightarrow> exc option \<times> tracer \<times> frame" where
  "invoke_trace_funcs t frame =
     (case map_of (injected_trace_funcs t) (f_id frame) of
        None \<Rightarrow> (Some (Exc C_KeyError (PFrame (f_id frame))), t, frame)
      | Some funcs \<Rightarrow>
          (case run_trace_funcs funcs frame of
             (res, frame1) \<Rightarrow>
               (let t1 = t\<lparr> injected_trace_funcs :=
                            AList.delete (f_id frame) (injected_trace_funcs t) \<rparr>;
                    t2 = (if length (orig_trace_funcs t1) = 1 then disable_tracing t1 else t1)
                in (case map_of (orig_trace_funcs t2) (f_id frame) of
                      None \<Rightarrow> (Some (Exc C_KeyError (PFrame (f_id frame))), t2, frame1)
                    | Some tr \<Rightarrow>
                        (res,
                         t2\<lparr> orig_trace_funcs := AList.delete (f_id frame) (orig_trace_funcs t2) \<rparr>,
                         frame1\<lparr> f_trace := tr \<rparr>)))))"

section \<open>Context hack base (WithHack)\<close>

text \<open>The function \<open>_exit_context\<close>.\<close>

definition exit_context :: callback where
  "exit_context frame = Inl (Exc C_ExitContext PNone)"

text \<open>\<open>d.update(other)\<close>: the entries of \<open>other\<close> are stored into \<open>d\<close> in order.\<close>

definition dict_update :: "dict \<Rightarrow> dict \<Rightarrow> dict" where
  "dict_update d other = fold (\<lambda>(k, v). AList.update k v) other d"

text \<open>The function \<open>lambda frame: frame.f_locals.update(locals)\<close>.\<close>

definition update_locals :: "dict \<Rightarrow> callback" where
  "update_locals locals frame = Inr (frame\<lparr> f_locals := dict_update (f_locals frame) locals \<rparr>)"

text \<open>
  A hack object: its identity and the two class attributes.  The context frame, which the
  methods obtain from \<open>_get_context_frame\<close>, is passed to each operation as \<open>frame\<close>; the
  walk over the call stack that finds it is not modelled.
\<close>

record withhack =
  self_id :: nat
  dont_execute :: bool
  must_execute :: bool

definition set_context_locals :: "tracer \<Rightarrow> frame \<Rightarrow> dict \<Rightarrow> exc + tracer \<times> frame" where
  "set_context_locals t frame locals = inject_trace_func t frame (update_locals locals)"

definition WithHack_enter ::
  "tracer \<Rightarrow> 'a withhack_scheme \<Rightarrow> frame \<Rightarrow> exc + tracer \<times> frame" where
  "WithHack_enter t self frame =
     (if dont_execute self \<and> \<not> must_execute self
      then inject_trace_func t frame exit_context
      else Inr (t, frame))"

text \<open>The exit handler receives the type of the propagating exception, or nothing, and answers
  whether the exception is to be suppressed.\<close>

definition WithHack_exit :: "exc_class option \<Rightarrow> bool" where
  "WithHack_exit exc_type_arg = (if exc_type_arg = Some C_ExitContext then True else False)"

section \<open>Bytecode capture (CaptureBytecode)\<close>

record capture_bytecode = withhack +
  bc_start :: "nat option"
  bytecode :: "elem list option"
  as_clause :: "elem list option"

text \<open>Reading \<open>.name\<close>: a label has no such attribute.\<close>

definition instr_name :: "elem \<Rightarrow> exc + string" where
  "instr_name b =
     (case b of
        Instr name arg \<Rightarrow> Inr name
      | Label l \<Rightarrow> Inl (Exc C_AttributeError (PStr ''name'')))"

text \<open>Dropping the leading elements up to and including \<open>SETUP_WITH\<close>; \<open>bc[0]\<close> of an empty
  sequence is an \<open>IndexError\<close>.\<close>

fun strip_setup :: "elem list \<Rightarrow> exc + elem list" where
  "strip_setup [] = Inl (Exc C_IndexError PNone)"
| "strip_setup (b # bc) =
     (case b of
        Instr name arg \<Rightarrow> if name \<noteq> ''SETUP_WITH'' then strip_setup bc else Inr bc
      | Label l \<Rightarrow> strip_setup bc)"

text \<open>The scan for the as-clause: elements are collected up to and including the first whose
  name starts with \<open>STORE\<close> or is \<open>POP_TOP\<close>; the rest is the body.\<close>

fun scan_as_clause :: "elem list \<Rightarrow> elem list \<Rightarrow> exc + elem list \<times> elem list" where
  "scan_as_clause acc [] = Inr (acc, [])"
| "scan_as_clause acc (instr # bc) =
     (case instr_name instr of
        Inl e \<Rightarrow> Inl e
      | Inr name \<Rightarrow>
          if take 5 name = ''STORE'' \<or> name = ''POP_TOP'' then Inr (acc @ [instr], bc)
          else scan_as_clause (acc @ [instr]) bc)"

text \<open>When the sequence is empty the loop variable \<open>i\<close> is never bound, and the slice
  \<open>bc[i+1:]\<close> raises.\<close>

definition split_as_clause :: "elem list \<Rightarrow> exc + elem list \<times> elem list" where
  "split_as_clause bc =
     (if bc = [] then Inl (Exc C_UnboundLocalError (PStr ''i'')) else scan_as_clause [] bc)"

text \<open>Dropping the trailing elements back to and including \<open>POP_BLOCK\<close>.\<close>

function strip_teardown :: "elem list \<Rightarrow> exc + elem list" where
  "strip_teardown bc =
     (if bc = [] then Inl (Exc C_IndexError PNone)
      else (case last bc of
              Instr name arg \<Rightarrow>
                if name \<noteq> ''POP_BLOCK'' then strip_teardown (butlast bc) else Inr (butlast bc)
            | Label l \<Rightarrow> strip_teardown (butlast bc)))"
  by pat_completeness auto
termination
  by (relation "measure length") auto

declare strip_teardown.simps [simp del]

definition CaptureBytecode_enter ::
  "tracer \<Rightarrow> 'a capture_bytecode_scheme \<Rightarrow> frame
     \<Rightarrow> exc + 'a capture_bytecode_scheme \<times> tracer \<times> frame" where
  "CaptureBytecode_enter t self frame =
     (let self1 = self\<lparr> bc_start := Some (f_lasti frame) \<rparr>
      in (case WithHack_enter t self1 frame of
            Inl e \<Rightarrow> Inl e
          | Inr (t', frame') \<Rightarrow> Inr (self1, t', frame')))"

definition CaptureBytecode_exit ::
  "(code_obj \<Rightarrow> concrete_instr list) \<Rightarrow> (concrete_instr list \<Rightarrow> elem list) \<Rightarrow>
   'a capture_bytecode_scheme \<Rightarrow> frame \<Rightarrow> exc_class option
     \<Rightarrow> exc + 'a capture_bytecode_scheme \<times> bool" where
  "CaptureBytecode_exit from_code to_bytecode self frame exc_type_arg =
     (case extract_code from_code to_bytecode frame (bc_start self) (Some (f_lasti frame)) of
        Inl e \<Rightarrow> Inl e
      | Inr bc \<Rightarrow>
          (case strip_setup bc of
             Inl e \<Rightarrow> Inl e
           | Inr bc1 \<Rightarrow>
               (case split_as_clause bc1 of
                  Inl e \<Rightarrow> Inl e
                | Inr (as_clause', bc2) \<Rightarrow>
                    (case strip_teardown bc2 of
                       Inl e \<Rightarrow> Inl e
                     | Inr bc3 \<Rightarrow>
                         Inr (self\<lparr> as_clause := Some as_clause', bytecode := Some bc3 \<rparr>,
                              WithHack_exit exc_type_arg)))))"

text \<open>The test \<open>any(instr.name == 'STORE_FAST' for instr in self._as_clause)\<close>, which stops
  at the first hit.\<close>

fun any_store_fast :: "elem list \<Rightarrow> exc + bool" where
  "any_store_fast [] = Inr False"
| "any_store_fast (instr # rest) =
     (case instr_name instr of
        Inl e \<Rightarrow> Inl e
      | Inr name \<Rightarrow> if name = ''STORE_FAST'' then Inr True else any_store_fast rest)"

text \<open>
  \<open>_run_as_clause\<close>.  In the general case the synthesized sequence is compiled, its
  placeholder constant is replaced by the value, and the result is executed in the frame's
  namespaces; these steps belong to the bytecode library and the interpreter and are the
  parameter \<open>exec_code\<close>, which receives the sequence, the value and the frame.
\<close>

definition run_as_clause ::
  "(elem list \<Rightarrow> pyval \<Rightarrow> frame \<Rightarrow> exc + frame) \<Rightarrow> tracer \<Rightarrow> 'a capture_bytecode_scheme \<Rightarrow>
   frame \<Rightarrow> pyval \<Rightarrow> exc + tracer \<times> frame" where
  "run_as_clause exec_code t self frame v =
     (case as_clause self of
        None \<Rightarrow> Inl (Exc C_AssertionError PNone)
      | Some asc \<Rightarrow>
          if asc = [] then Inl (Exc C_AssertionError PNone)
          else
            (case (if length asc = 1 then
                     (case asc ! 0 of
                        Label l \<Rightarrow> Some (Inl (Exc C_AttributeError (PStr ''name'')))
                      | Instr name arg \<Rightarrow>
                          if name = ''STORE_FAST'' then Some (set_context_locals t frame [(arg, v)])
                          else if name = ''POP_TOP'' then Some (Inr (t, frame))
                          else None)
                   else None) of
               Some r \<Rightarrow> r
             | None \<Rightarrow>
                 (case any_store_fast asc of
                    Inl e \<Rightarrow> Inl e
                  | Inr True \<Rightarrow>
                      Inl (Exc C_NotImplementedError (PStr ''Cannot handle this as clause''))
                  | Inr False \<Rightarrow>
                      (let code = [Instr ''LOAD_CONST'' PDummy] @ asc @
                                  [Instr ''LOAD_CONST'' PNone, Instr ''RETURN_VALUE'' PUnset]
                       in (case change_lookups [] (Dict (f_locals frame)) code of
                             Inl e \<Rightarrow> Inl e
                           | Inr code' \<Rightarrow>
                               (case exec_code code' v frame of
                                  Inl e \<Rightarrow> Inl e
                                | Inr frame' \<Rightarrow> Inr (t, frame')))))))"

section \<open>Capturing assigned locals (CaptureLocals, CaptureOrderedLocals)\<close>

text \<open>
  The attribute \<open>locals\<close> is made by \<open>dest_type()\<close>, a \<open>dict\<close> or an \<open>OrderedDict\<close>: both
  keep their keys in the order of first insertion, and an assignment to a key already present
  keeps its place.  The association list is that order; two plain dictionaries are equal when
  they hold the same bindings, whatever the order.
\<close>

record capture_locals = capture_bytecode +
  locals :: "dict option"

fun collect_locals :: "frame \<Rightarrow> elem list \<Rightarrow> dict \<Rightarrow> exc + dict" where
  "collect_locals frame [] acc = Inr acc"
| "collect_locals frame (instr # rest) acc =
     (case instr of
        Label l \<Rightarrow> Inl (Exc C_AttributeError (PStr ''name''))
      | Instr name arg \<Rightarrow>
          if name \<in> set [''STORE_FAST'', ''STORE_NAME''] then
            (case map_of (f_locals frame) arg of
               None \<Rightarrow> Inl (Exc C_KeyError arg)
             | Some v \<Rightarrow> collect_locals frame rest (AList.update arg v acc))
          else collect_locals frame rest acc)"

definition CaptureLocals_exit ::
  "(code_obj \<Rightarrow> concrete_instr list) \<Rightarrow> (concrete_instr list \<Rightarrow> elem list) \<Rightarrow>
   'a capture_locals_scheme \<Rightarrow> frame \<Rightarrow> exc_class option
     \<Rightarrow> exc + 'a capture_locals_scheme \<times> bool" where
  "CaptureLocals_exit from_code to_bytecode self frame exc_type_arg =
     (case CaptureBytecode_exit from_code to_bytecode self frame exc_type_arg of
        Inl e \<Rightarrow> Inl e
      | Inr (self1, retcode) \<Rightarrow>
          (case bytecode self1 of
             None \<Rightarrow> Inl (Exc C_TypeError PNone)
           | Some bc \<Rightarrow>
               (case collect_locals frame bc [] of
                  Inl e \<Rightarrow> Inl e
                | Inr acc \<Rightarrow> Inr (self1\<lparr> locals := Some acc \<rparr>, retcode))))"

section \<open>Capturing modified locals (CaptureModifiedLocals)\<close>

text \<open>The attribute \<open>locals\<close> of this class is the field \<open>modified_locals\<close>; \<open>pre_locals\<close> is
  the private attribute \<open>__pre_locals\<close>, absent before entry and deleted at exit.\<close>

record capture_modified_locals = withhack +
  pre_locals :: "dict option"
  modified_locals :: "dict option"

definition CaptureModifiedLocals_enter ::
  "tracer \<Rightarrow> 'a capture_modified_locals_scheme \<Rightarrow> frame
     \<Rightarrow> exc + 'a capture_modified_locals_scheme \<times> tracer \<times> frame" where
  "CaptureModifiedLocals_enter t self frame =
     (let self1 = self\<lparr> pre_locals := Some (f_locals frame) \<rparr>
      in (case WithHack_enter t self1 frame of
            Inl e \<Rightarrow> Inl e
          | Inr (t', frame') \<Rightarrow> Inr (self1, t', frame')))"

text \<open>The loop over \<open>frame.f_locals.items()\<close>; \<open>this\<close> is the hack object itself, and
  \<open>value is self\<close> compares identities.\<close>

fun modified_loop :: "pyval \<Rightarrow> dict \<Rightarrow> dict \<Rightarrow> dict \<Rightarrow> dict" where
  "modified_loop this pre [] acc = acc"
| "modified_loop this pre ((name, v) # items) acc =
     (if v = this then modified_loop this pre items acc
      else (case map_of pre name of
              None \<Rightarrow> modified_loop this pre items (AList.update name v acc)
            | Some old \<Rightarrow>
                if old \<noteq> v then modified_loop this pre items (AList.update name v acc)
                else modified_loop this pre items acc))"

definition CaptureModifiedLocals_exit ::
  "'a capture_modified_locals_scheme \<Rightarrow> frame \<Rightarrow> exc_class option
     \<Rightarrow> exc + 'a capture_modified_locals_scheme \<times> bool" where
  "CaptureModifiedLocals_exit self frame exc_type_arg =
     (case pre_locals self of
        None \<Rightarrow> Inl (Exc C_AttributeError (PStr ''__pre_locals''))
      | Some pre \<Rightarrow>
          Inr (self\<lparr> modified_locals :=
                       Some (modified_loop (PObj (self_id self)) pre (f_locals frame) []),
                     pre_locals := None \<rparr>,
               WithHack_exit exc_type_arg))"

section \<open>Calling with captured keyword arguments (xkwargs)\<close>

text \<open>The private attributes \<open>__func\<close>, \<open>__args\<close> and \<open>__kwds\<close>; the wrapped callable takes
  the positional and the keyword arguments and returns a value or raises.\<close>

record xkwargs = capture_locals +
  xkwargs_func :: "pyval list \<Rightarrow> dict \<Rightarrow> exc + pyval"
  xkwargs_args :: "pyval list"
  xkwargs_kwds :: dict

definition xkwargs_exit ::
  "(elem list \<Rightarrow> pyval \<Rightarrow> frame \<Rightarrow> exc + frame) \<Rightarrow>
   (code_obj \<Rightarrow> concrete_instr list) \<Rightarrow> (concrete_instr list \<Rightarrow> elem list) \<Rightarrow>
   tracer \<Rightarrow> 'a xkwargs_scheme \<Rightarrow> frame \<Rightarrow> exc_class option
     \<Rightarrow> exc + 'a xkwargs_scheme \<times> tracer \<times> frame \<times> bool" where
  "xkwargs_exit exec_code from_code to_bytecode t self frame exc_type_arg =
     (case CaptureLocals_exit from_code to_bytecode self frame exc_type_arg of
        Inl e \<Rightarrow> Inl e
      | Inr (self1, retcode) \<Rightarrow>
          (case locals self1 of
             None \<Rightarrow> Inl (Exc C_AttributeError (PStr ''locals''))
           | Some captured \<Rightarrow>
               (let kwds = dict_update (xkwargs_kwds self1) captured
                in (case xkwargs_func self1 (xkwargs_args self1) kwds of
                      Inl e \<Rightarrow> Inl e
                    | Inr retval \<Rightarrow>
                        (case run_as_clause exec_code t self1 frame retval of
                           Inl e \<Rightarrow> Inl e
                         | Inr (t', frame') \<Rightarrow> Inr (self1, t', frame', retcode))))))"

section \<open>Target-redirect rewriting (namespace, keyspace)\<close>

text \<open>
  \<open>_replace_opcode\<close>.  The three functions \<open>_load\<close>, \<open>_store\<close> and \<open>_delete\<close> read only the
  argument of the instruction and receive it; each makes instructions from it and so may
  raise what the library raises.  \<open>exc\<close> is the class \<open>_exc\<close>.  Every call of \<open>Label()\<close>
  makes a new label: \<open>n\<close> is the number of labels made so far and is returned advanced.  The
  result \<open>None\<close> means that the instruction stays.  The method reads the name of its argument
  first, which a label does not have.
\<close>

definition replace_opcode ::
  "(pyval \<Rightarrow> exc + elem list) \<Rightarrow> (pyval \<Rightarrow> exc + elem list) \<Rightarrow> (pyval \<Rightarrow> exc + elem list) \<Rightarrow>
   exc_class \<Rightarrow> nat \<Rightarrow> elem \<Rightarrow> frame \<Rightarrow> exc + elem list option \<times> nat" where
  "replace_opcode load store delete exc n instr frame =
     (case instr of
        Label l \<Rightarrow> Inl (Exc C_AttributeError (PStr ''name''))
      | Instr name arg \<Rightarrow>
          if name \<in> set [''STORE_FAST'', ''STORE_NAME''] then
            (case store arg of
               Inl e \<Rightarrow> Inl e
             | Inr s \<Rightarrow> Inr (Some ([Instr ''LOAD_FAST'' (PStr ''_[namespace]'')] @ s), n))
          else if name \<in> set [''DELETE_FAST'', ''DELETE_NAME''] then
            (case delete arg of
               Inl e \<Rightarrow> Inl e
             | Inr d \<Rightarrow> Inr (Some ([Instr ''LOAD_FAST'' (PStr ''_[namespace]'')] @ d), n))
          else if name \<in> set [''LOAD_FAST'', ''LOAD_NAME'', ''LOAD_GLOBAL'', ''LOAD_DEREF''] then
            (let excIn = New_label n; excOut = New_label (n + 1); end = New_label (n + 2)
             in (case load arg of
                   Inl e \<Rightarrow> Inl e
                 | Inr l \<Rightarrow>
                     (case make_instr ''LOAD_CONST'' arg of
                        Inl e \<Rightarrow> Inl e
                      | Inr name_const \<Rightarrow>
                          Inr (Some ([Instr ''SETUP_EXCEPT'' (PLabel excIn),
                                      Instr ''LOAD_FAST'' (PStr ''_[namespace]'')] @ l @
                                     [Instr ''STORE_FAST'' (PStr ''_[ns_value]''),
                                      Instr ''POP_BLOCK'' PUnset,
                                      Instr ''JUMP_FORWARD'' (PLabel end),
                                      Label excIn,
                                      Instr ''DUP_TOP'' PUnset,
                                      Instr ''LOAD_CONST'' (PExcClass exc),
                                      Instr ''COMPARE_OP'' (PCompare ''EXC_MATCH''),
                                      Instr ''POP_JUMP_IF_FALSE'' (PLabel excOut),
                                      Instr ''POP_TOP'' PUnset,
                                      Instr ''POP_TOP'' PUnset,
                                      Instr ''POP_TOP'' PUnset,
                                      Instr ''LOAD_CONST'' PLoadName,
                                      Instr ''LOAD_CONST'' (PFrame (f_id frame)),
                                      name_const,
                                      Instr ''CALL_FUNCTION'' (PInt 2),
                                      Instr ''STORE_FAST'' (PStr ''_[ns_value]''),
                                      Instr ''POP_EXCEPT'' PUnset,
                                      Instr ''JUMP_FORWARD'' (PLabel end),
                                      Label excOut,
                                      Instr ''END_FINALLY'' PUnset,
                                      Label end,
                                      Instr ''LOAD_FAST'' (PStr ''_[ns_value]'')]),
                               n + 3))))
          else Inr (None, n))"

text \<open>One instruction made from the argument, followed by further instructions.\<close>

definition made :: "string \<Rightarrow> pyval \<Rightarrow> elem list \<Rightarrow> exc + elem list" where
  "made name arg rest =
     (case make_instr name arg of Inl e \<Rightarrow> Inl e | Inr i \<Rightarrow> Inr (i # rest))"

definition namespace_replace_opcode ::
  "nat \<Rightarrow> elem \<Rightarrow> frame \<Rightarrow> exc + elem list option \<times> nat" where
  "namespace_replace_opcode =
     replace_opcode (\<lambda>a. made ''LOAD_ATTR'' a []) (\<lambda>a. made ''STORE_ATTR'' a [])
       (\<lambda>a. made ''DELETE_ATTR'' a []) C_AttributeError"

definition keyspace_replace_opcode ::
  "nat \<Rightarrow> elem \<Rightarrow> frame \<Rightarrow> exc + elem list option \<times> nat" where
  "keyspace_replace_opcode =
     replace_opcode (\<lambda>a. made ''LOAD_CONST'' a [Instr ''BINARY_SUBSCR'' PUnset])
       (\<lambda>a. made ''LOAD_CONST'' a [Instr ''STORE_SUBSCR'' PUnset])
       (\<lambda>a. made ''LOAD_CONST'' a [Instr ''DELETE_SUBSCR'' PUnset]) C_KeyError"

text \<open>The first loop of \<open>namespace.__exit__\<close>: the positions to replace, with their
  replacements; an empty replacement counts as none.\<close>

fun find_replacements ::
  "(nat \<Rightarrow> elem \<Rightarrow> frame \<Rightarrow> exc + elem list option \<times> nat) \<Rightarrow> frame \<Rightarrow> nat \<Rightarrow> nat \<Rightarrow>
   elem list \<Rightarrow> exc + (nat \<times> elem list) list" where
  "find_replacements replace frame n i [] = Inr []"
| "find_replacements replace frame n i (instr # rest) =
     (case replace n instr frame of
        Inl e \<Rightarrow> Inl e
      | Inr (repl, n') \<Rightarrow>
          (case find_replacements replace frame n' (Suc i) rest of
             Inl e \<Rightarrow> Inl e
           | Inr to_replace \<Rightarrow>
               Inr (case repl of
                      None \<Rightarrow> to_replace
                    | Some r \<Rightarrow> if r = [] then to_replace else (i, r) # to_replace)))"

text \<open>The second loop: \<open>funcode[i+offset:i+offset+1] = repl\<close>, then
  \<open>offset += len(repl) - 1\<close>.\<close>

fun splice :: "(nat \<times> elem list) list \<Rightarrow> nat \<Rightarrow> elem list \<Rightarrow> elem list" where
  "splice [] offset funcode = funcode"
| "splice ((i, repl) # rest) offset funcode =
     splice rest (offset + length repl - 1)
       (take (i + offset) funcode @ repl @ drop (i + offset + 1) funcode)"

text \<open>The rewriting part of \<open>namespace.__exit__\<close>: from the copy of the captured body to the
  sequence that is then compiled and called with the target object.\<close>

definition namespace_rewrite ::
  "(nat \<Rightarrow> elem \<Rightarrow> frame \<Rightarrow> exc + elem list option \<times> nat) \<Rightarrow> frame \<Rightarrow> elem list
     \<Rightarrow> exc + elem list" where
  "namespace_rewrite replace frame bc =
     (let funcode = bc @ [Instr ''LOAD_CONST'' PNone, Instr ''RETURN_VALUE'' PUnset]
      in (case find_replacements replace frame 0 0 funcode of
            Inl e \<Rightarrow> Inl e
          | Inr to_replace \<Rightarrow> Inr (splice to_replace 0 funcode)))"

section \<open>A machine for the rewritten instructions\<close>

text \<open>
  What the rewritten sequence does when it runs is decided by the host interpreter, not by
  the repository.  This section models the interpreter's evaluation loop for the instructions
  that \<open>_replace_opcode\<close> emits for a load: a value stack, a stack of blocks and the local
  slots.  Entering a \<open>try\<close> pushes a block that records the handler and the height of the value
  stack.  An exception pops blocks; at a \<open>try\<close> block the value stack is cut back to the
  recorded height, a handler block is pushed, the previous exception state and then the
  traceback, the value and the type of the exception are pushed, and control goes to the
  handler; with no block left the exception leaves the sequence.  \<open>POP_EXCEPT\<close> removes the
  handler block with what lies above its height, and \<open>END_FINALLY\<close> raises the exception on
  the stack again.  Attribute access, subscription and the test whether an exception matches
  a class belong to the objects involved and are parameters (\<open>host\<close>), as is the object a
  frame identity denotes; a call is modelled for the callable \<open>load_name\<close> only.
\<close>

datatype item = Val pyval | Flag bool | Exc_type exc_class | Exc_value exc | Exc_traceback
  | Old_exc_info

datatype block = Try_block label nat | Handler_block nat

record machine =
  pc :: nat
  stack :: "item list"
  blocks :: "block list"
  fast :: dict

record host =
  getattr :: "pyval \<Rightarrow> pyval \<Rightarrow> exc + pyval"
  getitem :: "pyval \<Rightarrow> pyval \<Rightarrow> exc + pyval"
  exc_matches :: "exc_class \<Rightarrow> exc_class \<Rightarrow> bool"
  frame_object :: "nat \<Rightarrow> frame option"

datatype step_result = Next machine | Raise exc machine | Stuck

text \<open>The position of a label in a sequence.\<close>

fun label_index :: "label \<Rightarrow> elem list \<Rightarrow> nat option" where
  "label_index l [] = None"
| "label_index l (b # bs) =
     (if b = Label l then Some 0 else map_option Suc (label_index l bs))"

definition jump :: "elem list \<Rightarrow> pyval \<Rightarrow> machine \<Rightarrow> step_result" where
  "jump code target m =
     (case target of
        PLabel l \<Rightarrow> (case label_index l code of Some i \<Rightarrow> Next (m\<lparr> pc := i \<rparr>) | None \<Rightarrow> Stuck)
      | _ \<Rightarrow> Stuck)"

text \<open>Cutting the value stack back to a recorded height.\<close>

definition unwind_to :: "nat \<Rightarrow> item list \<Rightarrow> item list" where
  "unwind_to level st = drop (length st - level) st"

text \<open>One instruction; \<open>Stuck\<close> stands for a state the model does not cover.\<close>

definition exec_instr :: "host \<Rightarrow> elem list \<Rightarrow> string \<Rightarrow> pyval \<Rightarrow> machine \<Rightarrow> step_result" where
  "exec_instr h code name arg m =
     (
             if name = ''SETUP_EXCEPT'' then
               (case arg of
                  PLabel l \<Rightarrow>
                    Next (m\<lparr> pc := pc m + 1,
                             blocks := Try_block l (length (stack m)) # blocks m \<rparr>)
                | _ \<Rightarrow> Stuck)
             else if name = ''LOAD_FAST'' then
               (case map_of (fast m) arg of
                  Some v \<Rightarrow> Next (m\<lparr> pc := pc m + 1, stack := Val v # stack m \<rparr>)
                | None \<Rightarrow> Raise (Exc C_UnboundLocalError arg) m)
             else if name = ''LOAD_CONST'' then
               Next (m\<lparr> pc := pc m + 1, stack := Val arg # stack m \<rparr>)
             else if name = ''LOAD_ATTR'' then
               (case stack m of
                  Val obj # st \<Rightarrow>
                    (case getattr h obj arg of
                       Inr v \<Rightarrow> Next (m\<lparr> pc := pc m + 1, stack := Val v # st \<rparr>)
                     | Inl e \<Rightarrow> Raise e (m\<lparr> stack := st \<rparr>))
                | _ \<Rightarrow> Stuck)
             else if name = ''BINARY_SUBSCR'' then
               (case stack m of
                  Val key # Val obj # st \<Rightarrow>
                    (case getitem h obj key of
                       Inr v \<Rightarrow> Next (m\<lparr> pc := pc m + 1, stack := Val v # st \<rparr>)
                     | Inl e \<Rightarrow> Raise e (m\<lparr> stack := st \<rparr>))
                | _ \<Rightarrow> Stuck)
             else if name = ''STORE_FAST'' then
               (case stack m of
                  Val v # st \<Rightarrow>
                    Next (m\<lparr> pc := pc m + 1, stack := st,
                             fast := AList.update arg v (fast m) \<rparr>)
                | _ \<Rightarrow> Stuck)
             else if name = ''POP_BLOCK'' then
               (case blocks m of
                  Try_block l level # bs \<Rightarrow>
                    Next (m\<lparr> pc := pc m + 1, stack := unwind_to level (stack m), blocks := bs \<rparr>)
                | _ \<Rightarrow> Stuck)
             else if name = ''JUMP_FORWARD'' then jump code arg m
             else if name = ''DUP_TOP'' then
               (case stack m of
                  x # st \<Rightarrow> Next (m\<lparr> pc := pc m + 1, stack := x # x # st \<rparr>)
                | _ \<Rightarrow> Stuck)
             else if name = ''COMPARE_OP'' then
               (if arg = PCompare ''EXC_MATCH'' then
                  (case stack m of
                     Val (PExcClass c) # Exc_type c' # st \<Rightarrow>
                       Next (m\<lparr> pc := pc m + 1, stack := Flag (exc_matches h c' c) # st \<rparr>)
                   | _ \<Rightarrow> Stuck)
                else Stuck)
             else if name = ''POP_JUMP_IF_FALSE'' then
               (case stack m of
                  Flag b # st \<Rightarrow>
                    if b then Next (m\<lparr> pc := pc m + 1, stack := st \<rparr>)
                    else jump code arg (m\<lparr> stack := st \<rparr>)
                | _ \<Rightarrow> Stuck)
             else if name = ''POP_TOP'' then
               (case stack m of
                  x # st \<Rightarrow> Next (m\<lparr> pc := pc m + 1, stack := st \<rparr>)
                | _ \<Rightarrow> Stuck)
             else if name = ''CALL_FUNCTION'' then
               (if arg = PInt 2 then
                  (case stack m of
                     Val a2 # Val (PFrame n) # Val PLoadName # st \<Rightarrow>
                       (case frame_object h n of
                          Some fr \<Rightarrow>
                            (case load_name fr a2 of
                               Inr v \<Rightarrow> Next (m\<lparr> pc := pc m + 1, stack := Val v # st \<rparr>)
                             | Inl e \<Rightarrow> Raise e (m\<lparr> stack := st \<rparr>))
                        | None \<Rightarrow> Stuck)
                   | _ \<Rightarrow> Stuck)
                else Stuck)
             else if name = ''POP_EXCEPT'' then
               (case blocks m of
                  Handler_block level # bs \<Rightarrow>
                    Next (m\<lparr> pc := pc m + 1, stack := unwind_to level (stack m), blocks := bs \<rparr>)
                | _ \<Rightarrow> Stuck)
             else if name = ''END_FINALLY'' then
               (case stack m of
                  Exc_type c # Exc_value e # Exc_traceback # st \<Rightarrow> Raise e (m\<lparr> stack := st \<rparr>)
                | _ \<Rightarrow> Stuck)
             else Stuck)"

definition step :: "host \<Rightarrow> elem list \<Rightarrow> machine \<Rightarrow> step_result" where
  "step h code m =
     (if length code \<le> pc m then Stuck
      else
        (case code ! pc m of
           Label l \<Rightarrow> Next (m\<lparr> pc := pc m + 1 \<rparr>)
         | Instr name arg \<Rightarrow> exec_instr h code name arg m))"

datatype outcome = Done machine | Propagate exc | Stuck_at machine | Out_of_fuel

text \<open>Raising an exception through the block stack.\<close>

fun unwind :: "elem list \<Rightarrow> exc \<Rightarrow> block list \<Rightarrow> machine \<Rightarrow> machine option + exc" where
  "unwind code e [] m = Inr e"
| "unwind code e (Handler_block level # bs) m =
     unwind code e bs (m\<lparr> stack := unwind_to level (stack m) \<rparr>)"
| "unwind code e (Try_block l level # bs) m =
     (let st = unwind_to level (stack m)
      in (case label_index l code of
            Some i \<Rightarrow>
              Inl (Some (m\<lparr> pc := i,
                  stack := Exc_type (exc_type e) # Exc_value e # Exc_traceback #
                           Old_exc_info # Old_exc_info # Old_exc_info # st,
                  blocks := Handler_block (length st) # bs \<rparr>))
          | None \<Rightarrow> Inl None))"

text \<open>Running until control reaches the end of the sequence or an exception leaves it, for
  at most the given number of steps.\<close>

fun run :: "host \<Rightarrow> elem list \<Rightarrow> nat \<Rightarrow> machine \<Rightarrow> outcome" where
  "run h code 0 m = Out_of_fuel"
| "run h code (Suc n) m =
     (if pc m = length code then Done m
      else
        (case step h code m of
           Next m' \<Rightarrow> run h code n m'
         | Raise e m' \<Rightarrow>
             (case unwind code e (blocks m') m' of
                Inl (Some m'') \<Rightarrow> run h code n m''
              | Inl None \<Rightarrow> Stuck_at m'
              | Inr e' \<Rightarrow> Propagate e')
         | Stuck \<Rightarrow> Stuck_at m))"

section \<open>Auxiliary notions used in the statements and proofs\<close>

text \<open>The number of instructions whose end offset, counted from \<open>at\<close>, lies below
  \<open>off\<close>.\<close>

fun below :: "nat \<Rightarrow> nat \<Rightarrow> concrete_instr list \<Rightarrow> nat" where
  "below at off [] = 0"
| "below at off (c # cs) = (if at + c_size c < off then 1 else 0) + below (at + c_size c) off cs"

text \<open>The number of instructions (not labels) of an abstract sequence.\<close>

definition count_instrs :: "elem list \<Rightarrow> nat" where
  "count_instrs bc = length (filter is_instr bc)"

text \<open>\<open>last_at c bc r\<close>: \<open>r\<close> is the last position of \<open>bc\<close> before which exactly \<open>c\<close>
  instructions stand, or nothing when there is no such position.\<close>
definition last_at :: "nat \<Rightarrow> elem list \<Rightarrow> nat option \<Rightarrow> bool" where
  "last_at c bc r =
     (case r of
        None \<Rightarrow> (\<forall>j < length bc. count_instrs (take j bc) \<noteq> c)
      | Some j \<Rightarrow> j < length bc \<and> count_instrs (take j bc) = c \<and>
          (\<forall>j'. j < j' \<and> j' < length bc \<longrightarrow> count_instrs (take j' bc) \<noteq> c))"


text \<open>Each element once, at the place of its first occurrence.\<close>

fun first_assigned :: "'a list \<Rightarrow> 'a list" where
  "first_assigned [] = []"
| "first_assigned (n # ns) = n # filter (\<lambda>k. k \<noteq> n) (first_assigned ns)"

text \<open>
  The state the module keeps between its own operations: a global hook is installed while
  the table of original hooks is not empty, and a frame that holds the dispatcher has an entry
  in both tables.
\<close>

definition tracer_consistent :: "tracer \<Rightarrow> frame \<Rightarrow> bool" where
  "tracer_consistent t frame =
     ((orig_trace_funcs t = [] \<or> sys_trace t \<noteq> None) \<and>
      (f_trace frame \<noteq> Some Invoke_trace_funcs \<or>
         (map_of (injected_trace_funcs t) (f_id frame) \<noteq> None \<and>
          map_of (orig_trace_funcs t) (f_id frame) \<noteq> None)))"

text \<open>The library's invariant on an element of a sequence: the argument of an instruction
  fits its operation.\<close>

definition well_formed :: "elem \<Rightarrow> bool" where
  "well_formed b = (case b of Instr name arg \<Rightarrow> check_arg name arg | Label l \<Rightarrow> True)"

text \<open>The names a container of existing locals holds: its elements, or its keys.\<close>

fun names_of :: "container \<Rightarrow> pyval list" where
  "names_of (Seq xs) = xs"
| "names_of (Dict d) = map fst d"

text \<open>A load or store of a closure cell.\<close>

definition cell_access :: "elem \<Rightarrow> bool" where
  "cell_access b =
     (case b of
        Instr name arg \<Rightarrow> name \<in> set [''LOAD_DEREF'', ''STORE_DEREF'']
      | Label l \<Rightarrow> False)"

text \<open>One pass over a sequence that puts every replacement in the place of its instruction,
  to compare with the two loops of \<open>namespace.__exit__\<close>.\<close>

fun expand ::
  "(nat \<Rightarrow> elem \<Rightarrow> frame \<Rightarrow> exc + elem list option \<times> nat) \<Rightarrow> frame \<Rightarrow> nat \<Rightarrow> elem list
     \<Rightarrow> exc + elem list" where
  "expand replace frame n [] = Inr []"
| "expand replace frame n (instr # rest) =
     (case replace n instr frame of
        Inl e \<Rightarrow> Inl e
      | Inr (repl, n') \<Rightarrow>
          (case expand replace frame n' rest of
             Inl e \<Rightarrow> Inl e
           | Inr out \<Rightarrow>
               Inr ((case repl of
                       None \<Rightarrow> [instr]
                     | Some r \<Rightarrow> if r = [] then [instr] else r) @ out)))"

text \<open>The sequences that \<open>_replace_opcode\<close> returns for a load, with attribute access and with
  key access.\<close>

definition guarded_attr :: "nat \<Rightarrow> pyval \<Rightarrow> nat \<Rightarrow> elem list" where
  "guarded_attr n arg fid =
     [Instr ''SETUP_EXCEPT'' (PLabel (New_label n)),
      Instr ''LOAD_FAST'' (PStr ''_[namespace]''),
      Instr ''LOAD_ATTR'' arg,
      Instr ''STORE_FAST'' (PStr ''_[ns_value]''),
      Instr ''POP_BLOCK'' PUnset,
      Instr ''JUMP_FORWARD'' (PLabel (New_label (n + 2))),
      Label (New_label n),
      Instr ''DUP_TOP'' PUnset,
      Instr ''LOAD_CONST'' (PExcClass C_AttributeError),
      Instr ''COMPARE_OP'' (PCompare ''EXC_MATCH''),
      Instr ''POP_JUMP_IF_FALSE'' (PLabel (New_label (n + 1))),
      Instr ''POP_TOP'' PUnset,
      Instr ''POP_TOP'' PUnset,
      Instr ''POP_TOP'' PUnset,
      Instr ''LOAD_CONST'' PLoadName,
      Instr ''LOAD_CONST'' (PFrame fid),
      Instr ''LOAD_CONST'' arg,
      Instr ''CALL_FUNCTION'' (PInt 2),
      Instr ''STORE_FAST'' (PStr ''_[ns_value]''),
      Instr ''POP_EXCEPT'' PUnset,
      Instr ''JUMP_FORWARD'' (PLabel (New_label (n + 2))),
      Label (New_label (n + 1)),
      Instr ''END_FINALLY'' PUnset,
      Label (New_label (n + 2)),
      Instr ''LOAD_FAST'' (PStr ''_[ns_value]'')]"

definition guarded_key :: "nat \<Rightarrow> pyval \<Rightarrow> nat \<Rightarrow> elem list" where
  "guarded_key n arg fid =
     [Instr ''SETUP_EXCEPT'' (PLabel (New_label n)),
      Instr ''LOAD_FAST'' (PStr ''_[namespace]''),
      Instr ''LOAD_CONST'' arg,
      Instr ''BINARY_SUBSCR'' PUnset,
      Instr ''STORE_FAST'' (PStr ''_[ns_value]''),
      Instr ''POP_BLOCK'' PUnset,
      Instr ''JUMP_FORWARD'' (PLabel (New_label (n + 2))),
      Label (New_label n),
      Instr ''DUP_TOP'' PUnset,
      Instr ''LOAD_CONST'' (PExcClass C_KeyError),
      Instr ''COMPARE_OP'' (PCompare ''EXC_MATCH''),
      Instr ''POP_JUMP_IF_FALSE'' (PLabel (New_label (n + 1))),
      Instr ''POP_TOP'' PUnset,
      Instr ''POP_TOP'' PUnset,
      Instr ''POP_TOP'' PUnset,
      Instr ''LOAD_CONST'' PLoadName,
      Instr ''LOAD_CONST'' (PFrame fid),
      Instr ''LOAD_CONST'' arg,
      Instr ''CALL_FUNCTION'' (PInt 2),
      Instr ''STORE_FAST'' (PStr ''_[ns_value]''),
      Instr ''POP_EXCEPT'' PUnset,
      Instr ''JUMP_FORWARD'' (PLabel (New_label (n + 2))),
      Label (New_label (n + 1)),
      Instr ''END_FINALLY'' PUnset,
      Label (New_label (n + 2)),
      Instr ''LOAD_FAST'' (PStr ''_[ns_value]'')]"

text \<open>The value of a guarded load: the attempt if it succeeds, the name resolver if the attempt
  fails with an exception that matches the class, the exception of the attempt otherwise; and
  the state in which the machine leaves the sequence.\<close>

definition fallback ::
  "host \<Rightarrow> exc_class \<Rightarrow> frame \<Rightarrow> pyval \<Rightarrow> exc + pyval \<Rightarrow> exc + pyval" where
  "fallback h cls frame name attempt =
     (case attempt of
        Inr v \<Rightarrow> Inr v
      | Inl e \<Rightarrow> if exc_matches h (exc_type e) cls then load_name frame name else Inl e)"

definition guarded_outcome :: "nat \<Rightarrow> item list \<Rightarrow> dict \<Rightarrow> exc + pyval \<Rightarrow> outcome" where
  "guarded_outcome len st fl r =
     (case r of
        Inr v \<Rightarrow> Done \<lparr> pc = len, stack = Val v # st, blocks = [],
                         fast = AList.update (PStr ''_[ns_value]'') v fl \<rparr>
      | Inl e \<Rightarrow> Propagate e)"

section \<open>Example inputs\<close>

definition frame0 :: frame where
  "frame0 = \<lparr> f_id = 0, f_code = \<lparr> co_code = [] \<rparr>, f_lasti = 0,
      f_locals = [(PStr ''x'', PInt 1)],
      f_globals = [(PStr ''x'', PInt 5), (PStr ''y'', PInt 2)],
      f_builtins = [(PStr ''len'', PObj 9)],
      f_trace = None \<rparr>"

definition decoder0 :: "code_obj \<Rightarrow> concrete_instr list" where
  "decoder0 code =
     [\<lparr> c_name = ''LOAD_CONST'', c_arg = 0, c_size = 2 \<rparr>,
      \<lparr> c_name = ''STORE_FAST'', c_arg = 0, c_size = 2 \<rparr>,
      \<lparr> c_name = ''LOAD_GLOBAL'', c_arg = 300, c_size = 4 \<rparr>,
      \<lparr> c_name = ''POP_TOP'', c_arg = 0, c_size = 2 \<rparr>]"

definition lift0 :: "concrete_instr list \<Rightarrow> elem list" where
  "lift0 cs =
     concat (map (\<lambda>c. if c_name c = ''POP_TOP''
                        then [Label (Code_label 0), Instr (c_name c) PUnset]
                        else [Instr (c_name c) (PInt (int (c_arg c)))]) cs)"

definition hack_ml :: capture_modified_locals where
  "hack_ml = \<lparr> self_id = 1, dont_execute = False, must_execute = False,
      pre_locals = Some [(PStr ''x'', PInt 7)], modified_locals = None \<rparr>"

definition frame_ml :: frame where
  "frame_ml = \<lparr> f_id = 0, f_code = \<lparr> co_code = [] \<rparr>, f_lasti = 0,
      f_locals = [(PStr ''x'', PInt 7), (PStr ''f'', PObj 1), (PStr ''y'', PInt 8),
                  (PStr ''z'', PInt 9)],
      f_globals = [], f_builtins = [], f_trace = None \<rparr>"

definition ci :: "string \<Rightarrow> nat \<Rightarrow> concrete_instr" where
  "ci name a = \<lparr> c_name = name, c_arg = a, c_size = 2 \<rparr>"

definition lift_example :: "pyval list \<Rightarrow> nat list \<Rightarrow> concrete_instr list \<Rightarrow> elem list" where
  "lift_example pool targets cs =
     concat (map (\<lambda>(i, c). (if i \<in> set targets then [Label (Code_label i)] else []) @
                             [Instr (c_name c) (pool ! c_arg c)])
                 (enumerate 0 cs))"





definition code_kw :: "concrete_instr list" where
  "code_kw =
     [ci ''LOAD_GLOBAL'' 1, ci ''LOAD_GLOBAL'' 2, ci ''LOAD_CONST'' 3, ci ''LOAD_CONST'' 4,
      ci ''LOAD_CONST'' 5, ci ''CALL_FUNCTION_KW'' 6, ci ''SETUP_WITH'' 7, ci ''STORE_FAST'' 8,
      ci ''LOAD_CONST'' 9, ci ''STORE_FAST'' 10, ci ''POP_BLOCK'' 0, ci ''LOAD_CONST'' 11,
      ci ''WITH_CLEANUP_START'' 0, ci ''WITH_CLEANUP_FINISH'' 0, ci ''END_FINALLY'' 0,
      ci ''LOAD_CONST'' 11, ci ''RETURN_VALUE'' 0]"

definition pool_kw :: "pyval list" where
  "pool_kw = [PUnset, PStr ''xkwargs'', PStr ''calculate'', PInt 1, PInt 2, PObj 50, PInt 3,
      PLabel (Code_label 12), PStr ''result'', PInt 5, PStr ''a'', PNone]"

definition frame_kw :: frame where
  "frame_kw = \<lparr> f_id = 0, f_code = \<lparr> co_code = replicate 34 0 \<rparr>, f_lasti = 24,
      f_locals = [(PStr ''result'', PObj 1), (PStr ''a'', PInt 5)],
      f_globals = [], f_builtins = [], f_trace = None \<rparr>"

definition calculate :: "pyval list \<Rightarrow> dict \<Rightarrow> exc + pyval" where
  "calculate positional keywords =
     (case (map_of keywords (PStr ''a''), map_of keywords (PStr ''b'')) of
        (Some (PInt a), Some (PInt b)) \<Rightarrow> Inr (PInt (a * b))
      | _ \<Rightarrow> Inl (Exc C_TypeError PNone))"

definition hack_kw :: xkwargs where
  "hack_kw = \<lparr> self_id = 1, dont_execute = True, must_execute = True,
      bc_start = Some 12, bytecode = None, as_clause = None, locals = None,
      xkwargs_func = calculate, xkwargs_args = [],
      xkwargs_kwds = [(PStr ''a'', PInt 1), (PStr ''b'', PInt 2)] \<rparr>"

definition tracer0 :: tracer where
  "tracer0 = \<lparr> sys_trace = None, orig_sys_trace = None, orig_trace_funcs = [],
      injected_trace_funcs = [] \<rparr>"

definition exec_none :: "elem list \<Rightarrow> pyval \<Rightarrow> frame \<Rightarrow> exc + frame" where
  "exec_none code v frame = Inr frame"

definition hack_unpack :: capture_bytecode where
  "hack_unpack = \<lparr> self_id = 1, dont_execute = True, must_execute = False,
      bc_start = Some 4, bytecode = Some [],
      as_clause = Some [Instr ''UNPACK_SEQUENCE'' (PInt 2), Instr ''STORE_FAST'' (PStr ''a'')] \<rparr>"

definition hack_as :: capture_bytecode where
  "hack_as = \<lparr> self_id = 1, dont_execute = True, must_execute = False,
      bc_start = Some 4, bytecode = Some [],
      as_clause = Some [Instr ''STORE_FAST'' (PStr ''f'')] \<rparr>"

definition hack_skip :: withhack where
  "hack_skip = \<lparr> self_id = 1, dont_execute = True, must_execute = False \<rparr>"

definition host0 :: host where
  "host0 = \<lparr> getattr = (\<lambda>obj a. if a = PStr ''x'' then Inr (PInt 1)
                                else if a = PStr ''boom'' then Inl (Exc (C_User ''ValueError'') PNone)
                                else Inl (Exc C_AttributeError a)),
             getitem = (\<lambda>obj a. Inl (Exc C_KeyError a)),
             exc_matches = (\<lambda>c c'. c = c'),
             frame_object = (\<lambda>n. if n = 0 then Some frame0 else None) \<rparr>"

definition machine0 :: machine where
  "machine0 = \<lparr> pc = 0, stack = [Val (PInt 99)], blocks = [], fast = [(PStr ''_[namespace]'', PObj 7)] \<rparr>"

section \<open>Properties\<close>

subsection \<open>Code extractor\<close>

lemma fold_scan_step:
  "fold (scan_step s e) cs (at, sc, ec) =
     (at + sum_list (map c_size cs), sc + below at s cs, ec + below at e cs)"
  by (induction cs arbitrary: at sc ec) (auto simp: scan_step_def Let_def)

lemma concrete_indices_below:
  "concrete_indices s e cs = (below 0 s cs, below 0 e cs)"
  by (simp add: concrete_indices_def fold_scan_step)

lemma below_zero: "off \<le> at \<Longrightarrow> below at off cs = 0"
  by (induction cs arbitrary: at) auto

lemma below_le: "below at off cs \<le> length cs"
  by (induction cs arbitrary: at) (auto intro: le_SucI)

lemma below_mono: "s \<le> e \<Longrightarrow> below at s cs \<le> below at e cs"
  by (induction cs arbitrary: at) (auto intro: le_SucI)

lemma below_less_length:
  "cs \<noteq> [] \<Longrightarrow> off \<le> at + sum_list (map c_size cs) \<Longrightarrow> below at off cs < length cs"
proof (induction cs arbitrary: at)
  case Nil
  then show ?case by simp
next
  case (Cons c cs)
  show ?case
  proof (cases "cs = []")
    case True
    with Cons.prems show ?thesis by simp
  next
    case False
    from Cons.prems have "off \<le> (at + c_size c) + sum_list (map c_size cs)" by simp
    from Cons.IH [OF False this] show ?thesis by simp
  qed
qed

lemma below_inside:
  "k < length cs \<Longrightarrow> at + sum_list (map c_size (take k cs)) < off \<Longrightarrow>
   off \<le> at + sum_list (map c_size (take (Suc k) cs)) \<Longrightarrow> below at off cs = k"
proof (induction cs arbitrary: at k)
  case Nil
  then show ?case by simp
next
  case (Cons c cs)
  show ?case
  proof (cases k)
    case 0
    with Cons.prems show ?thesis by (simp add: below_zero)
  next
    case (Suc k')
    with Cons.prems have "below (at + c_size c) off cs = k'"
      by (intro Cons.IH) (simp_all add: ac_simps)
    moreover from Suc Cons.prems have "at + c_size c < off" by simp
    ultimately show ?thesis using Suc by simp
  qed
qed


lemma count_instrs_take_mono:
  assumes "i \<le> j"
  shows "count_instrs (take i bc) \<le> count_instrs (take j bc)"
proof -
  from assms obtain d where j: "j = i + d" using le_Suc_ex by blast
  show ?thesis unfolding j count_instrs_def by (simp add: take_add)
qed

lemma bytecode_indices_snoc:
  "bytecode_indices sc ec (bc @ [b]) =
     index_step sc ec (length bc, b) (bytecode_indices sc ec bc)"
  by (simp add: bytecode_indices_def enumerate_append_eq)

lemma bytecode_indices_char:
  "\<exists>sb eb. bytecode_indices sc ec bc = (count_instrs bc, sb, eb) \<and> last_at sc bc sb \<and> last_at ec bc eb"
proof (induction bc rule: rev_induct)
  case Nil
  show ?case by (simp add: bytecode_indices_def count_instrs_def last_at_def)
next
  case (snoc b bc)
  then obtain sb eb where st: "bytecode_indices sc ec bc = (count_instrs bc, sb, eb)"
    and ls: "last_at sc bc sb" and le: "last_at ec bc eb" by blast
  have step: "\<And>c r. last_at c bc r \<Longrightarrow>
      last_at c (bc @ [b]) (if count_instrs bc = c then Some (length bc) else r)"
  proof -
    fix c r assume a: "last_at c bc r"
    have tk: "\<And>j. j \<le> length bc \<Longrightarrow> take j (bc @ [b]) = take j bc" by simp
    show "last_at c (bc @ [b]) (if count_instrs bc = c then Some (length bc) else r)"
    proof (cases "count_instrs bc = c")
      case True
      then show ?thesis by (simp add: last_at_def)
    next
      case False
      show ?thesis
      proof (cases r)
        case None
        with a False show ?thesis
          by (auto simp: last_at_def less_Suc_eq)
      next
        case (Some j)
        with a False show ?thesis
          by (auto simp: last_at_def less_Suc_eq)
      qed
    qed
  qed
  show ?case
    using step [OF ls] step [OF le]
    by (simp add: bytecode_indices_snoc st index_step_def count_instrs_def)
qed


lemma last_at_unique: "last_at c bc r \<Longrightarrow> last_at c bc r' \<Longrightarrow> r = r'"
  by (cases r; cases r') (auto simp: last_at_def intro: linorder_cases)

lemma last_at_exists:
  "c < count_instrs bc \<Longrightarrow> \<exists>j < length bc. count_instrs (take j bc) = c"
proof (induction bc rule: rev_induct)
  case Nil
  then show ?case by (simp add: count_instrs_def)
next
  case (snoc b bc)
  show ?case
  proof (cases "c < count_instrs bc")
    case True
    from snoc.IH [OF True] obtain j where "j < length bc" "count_instrs (take j bc) = c" by blast
    then show ?thesis by (intro exI [of _ j]) simp
  next
    case False
    with snoc.prems have "count_instrs bc = c" by (simp add: count_instrs_def split: if_splits)
    then show ?thesis by (intro exI [of _ "length bc"]) simp
  qed
qed

lemma last_at_Some: "c < count_instrs bc \<Longrightarrow> last_at c bc r \<Longrightarrow> \<exists>j. r = Some j"
  using last_at_exists [of c bc] by (cases r) (auto simp: last_at_def)

lemma last_at_le:
  assumes "last_at c bc (Some i)" "last_at c' bc (Some j)" "c \<le> c'"
  shows "i \<le> j"
proof (rule ccontr)
  assume "\<not> i \<le> j"
  then have ji: "j < i" by simp
  from assms have i: "i < length bc" "count_instrs (take i bc) = c"
    and j: "count_instrs (take j bc) = c'"
    and lastj: "\<forall>j'. j < j' \<and> j' < length bc \<longrightarrow> count_instrs (take j' bc) \<noteq> c'"
    by (simp_all add: last_at_def)
  from ji have "count_instrs (take j bc) \<le> count_instrs (take i bc)"
    by (intro count_instrs_take_mono) simp
  with i j assms(3) have "count_instrs (take i bc) = c'" by simp
  with lastj ji i show False by blast
qed

lemma filter_take_prefix:
  "filter P (take j xs) = take (length (filter P (take j xs))) (filter P xs)"
proof -
  have "filter P xs = filter P (take j xs) @ filter P (drop j xs)"
    by (simp only: filter_append [symmetric] append_take_drop_id)
  then show ?thesis by simp
qed

lemma slice_instrs:
  assumes "i \<le> j" "count_instrs (take i bc) = sc" "count_instrs (take j bc) = ec"
  shows "filter is_instr (drop i (take j bc)) = drop sc (take ec (filter is_instr bc))"
proof -
  let ?F = "filter is_instr bc"
  have a: "filter is_instr (take i bc) = take sc ?F"
    using filter_take_prefix [of is_instr i bc] assms(2) by (simp add: count_instrs_def)
  have b: "filter is_instr (take j bc) = take ec ?F"
    using filter_take_prefix [of is_instr j bc] assms(3) by (simp add: count_instrs_def)
  have "take j bc = take i bc @ drop i (take j bc)"
    using assms(1) by (metis append_take_drop_id min.absorb1 take_take)
  then have "filter is_instr (take j bc) =
      filter is_instr (take i bc) @ filter is_instr (drop i (take j bc))"
    by (metis filter_append)
  with a b have c: "take ec ?F = take sc ?F @ filter is_instr (drop i (take j bc))" by simp
  have "length (take sc ?F) = sc"
    using a assms(2) by (simp add: count_instrs_def)
  with c show ?thesis by (metis append_eq_conv_conj)
qed

text \<open>
  Claim C1.  Let the conversion to the abstract form keep one abstract instruction per
  concrete instruction, and let \<open>start \<le> end\<close> be offsets within the code.  Then
  \<open>extract_code\<close> returns a contiguous slice of the abstract sequence whose instructions
  are exactly the abstract instructions numbered from the mapped start index up to, not
  including, the mapped end index, in order: their number is the difference of the two
  indices.  An offset strictly between the boundaries of instruction \<open>k\<close> is mapped to
  \<open>k\<close>.
\<close>

theorem extract_code_slice:
  assumes one_to_one:
      "count_instrs (to_bytecode (from_code (f_code frame))) = length (from_code (f_code frame))"
    and order: "start \<le> end"
    and within: "end \<le> sum_list (map c_size (from_code (f_code frame)))"
  shows "\<exists>start_c end_c r i j.
      concrete_indices start end (from_code (f_code frame)) = (start_c, end_c) \<and>
      extract_code from_code to_bytecode frame (Some start) (Some end) = Inr r \<and>
      r = drop i (take j (to_bytecode (from_code (f_code frame)))) \<and>
      start_c \<le> end_c \<and>
      filter is_instr r =
        drop start_c (take end_c (filter is_instr (to_bytecode (from_code (f_code frame))))) \<and>
      count_instrs r = end_c - start_c \<and>
      (\<forall>k < length (from_code (f_code frame)).
         sum_list (map c_size (take k (from_code (f_code frame)))) < start \<and>
         start < sum_list (map c_size (take (Suc k) (from_code (f_code frame))))
         \<longrightarrow> start_c = k) \<and>
      (\<forall>k < length (from_code (f_code frame)).
         sum_list (map c_size (take k (from_code (f_code frame)))) < end \<and>
         end < sum_list (map c_size (take (Suc k) (from_code (f_code frame))))
         \<longrightarrow> end_c = k)"
proof -
  define cs where "cs = from_code (f_code frame)"
  define bc where "bc = to_bytecode cs"
  define sc where "sc = below 0 start cs"
  define ec where "ec = below 0 end cs"
  have ci: "concrete_indices start end cs = (sc, ec)"
    by (simp add: concrete_indices_below sc_def ec_def)
  have le: "sc \<le> ec" unfolding sc_def ec_def by (rule below_mono [OF order])
  from bytecode_indices_char [of sc ec bc] obtain sb eb
    where bi: "bytecode_indices sc ec bc = (count_instrs bc, sb, eb)"
      and ls: "last_at sc bc sb" and le': "last_at ec bc eb" by blast
  have n: "count_instrs bc = length cs" using one_to_one by (simp add: bc_def cs_def)
  have ex: "extract_code from_code to_bytecode frame (Some start) (Some end)
      = Inr (py_slice sb eb bc)"
    using ci bi n by (simp add: extract_code_def Let_def cs_def [symmetric] bc_def [symmetric])
  have F: "length (filter is_instr bc) = length cs" using n by (simp add: count_instrs_def)
  have sl: "\<exists>i j. py_slice sb eb bc = drop i (take j bc) \<and>
      filter is_instr (py_slice sb eb bc) = drop sc (take ec (filter is_instr bc))"
  proof (cases "cs = []")
    case True
    with F have nil: "filter is_instr bc = []" by simp
    from True have "sc = ec" by (simp add: sc_def ec_def)
    with ls le' have "sb = eb" by (auto intro: last_at_unique)
    show ?thesis
    proof (cases sb)
      case None
      with \<open>sb = eb\<close> have "py_slice sb eb bc = drop 0 (take (length bc) bc)"
        by (simp add: py_slice_def)
      with nil show ?thesis by (metis drop_0 take_all order_refl drop_Nil take_Nil)
    next
      case (Some i)
      with \<open>sb = eb\<close> have "eb = Some i" by simp
      with Some have "py_slice sb eb bc = drop i (take i bc)"
        by (simp add: py_slice_def)
      moreover have "filter is_instr (drop i (take i bc)) = []" by simp
      ultimately show ?thesis using nil by (metis drop_Nil take_Nil)
    qed
  next
    case False
    have "ec < length cs"
      unfolding ec_def using within False by (intro below_less_length) (simp_all add: cs_def)
    with le n have "sc < count_instrs bc" "ec < count_instrs bc" by simp_all
    with ls le' obtain i j where sb: "sb = Some i" and eb: "eb = Some j"
      using last_at_Some by blast
    from ls le' le have ij: "i \<le> j" unfolding sb eb by (rule last_at_le)
    from ls le' have "count_instrs (take i bc) = sc" "count_instrs (take j bc) = ec"
      unfolding sb eb by (simp_all add: last_at_def)
    from slice_instrs [OF ij this] show ?thesis
      by (intro exI [of _ i] exI [of _ j]) (simp add: py_slice_def sb eb)
  qed
  then obtain i j where r: "py_slice sb eb bc = drop i (take j bc)"
    and fr: "filter is_instr (py_slice sb eb bc) = drop sc (take ec (filter is_instr bc))"
    by blast
  have ecl: "ec \<le> length cs" unfolding ec_def by (rule below_le)
  have cnt: "count_instrs (py_slice sb eb bc) = ec - sc"
    unfolding count_instrs_def fr using ecl F by simp
  have rs: "\<forall>k < length cs. sum_list (map c_size (take k cs)) < start \<and>
         start < sum_list (map c_size (take (Suc k) cs)) \<longrightarrow> sc = k"
    unfolding sc_def using below_inside [of _ cs 0 start] by auto
  have re: "\<forall>k < length cs. sum_list (map c_size (take k cs)) < end \<and>
         end < sum_list (map c_size (take (Suc k) cs)) \<longrightarrow> ec = k"
    unfolding ec_def using below_inside [of _ cs 0 "end"] by auto
  show ?thesis
    using ci ex r le fr cnt rs re
    unfolding cs_def [symmetric] bc_def [symmetric] by blast
qed


theorem extract_code_slice_witness:
  "count_instrs (lift0 (decoder0 (f_code frame0))) = length (decoder0 (f_code frame0)) \<and>
   (3::nat) \<le> 9 \<and> 9 \<le> sum_list (map c_size (decoder0 (f_code frame0))) \<and>
   concrete_indices 3 9 (decoder0 (f_code frame0)) = (1, 3) \<and>
   extract_code decoder0 lift0 frame0 (Some 3) (Some 9) =
     Inr [Instr ''STORE_FAST'' (PInt 0), Instr ''LOAD_GLOBAL'' (PInt 300), Label (Code_label 0)]"
proof -
  have h1: "count_instrs (lift0 (decoder0 (f_code frame0))) = length (decoder0 (f_code frame0))"
    by code_simp
  have h2: "(3::nat) \<le> 9" by simp
  have h3: "9 \<le> sum_list (map c_size (decoder0 (f_code frame0)))" by code_simp
  have v1: "concrete_indices 3 9 (decoder0 (f_code frame0)) = (1, 3)" by code_simp
  have v2: "extract_code decoder0 lift0 frame0 (Some 3) (Some 9) =
     Inr [Instr ''STORE_FAST'' (PInt 0), Instr ''LOAD_GLOBAL'' (PInt 300), Label (Code_label 0)]"
    by code_simp
  from extract_code_slice [of lift0 decoder0 frame0 3 9, OF h1 h2 h3] h1 h2 h3 v1 v2
  show ?thesis by blast
qed

subsection \<open>Function-mode rewriting\<close>

lemma check_arg_opname:
  "check_arg (opname a m) arg = (if m = Deref then is_cell arg else is_str arg)"
  by (cases a; cases m) (simp_all add: check_arg_def hasfree_def haslocal_def hasname_def)

lemma make_instr_opname:
  "make_instr (opname a m) arg =
     (if (if m = Deref then is_cell arg else is_str arg) then Inr (Instr (opname a m) arg)
      else Inl (Exc C_TypeError arg))"
  by (simp add: make_instr_def check_arg_opname)

lemmas make_instr_names =
  make_instr_opname [of Load Fast, simplified] make_instr_opname [of Load Name, simplified]
  make_instr_opname [of Store Fast, simplified] make_instr_opname [of Store Name, simplified]
  make_instr_opname [of Delete Fast, simplified] make_instr_opname [of Delete Name, simplified]

lemma contains_str:
  "contains existing (PStr s) = Inr (PStr s \<in> set (names_of existing))"
  by (cases existing) (simp_all add: contains_def hashable_def is_cell_def)

lemma change_lookup_opname:
  assumes "m \<noteq> Deref"
  shows "change_lookup params existing (Instr (opname a m) (PStr s)) =
     Inr (Instr (opname a (if PStr s \<in> set params then Fast
                           else if m = Fast
                                then (if PStr s \<in> set (names_of existing) then Name else Fast)
                           else m)) (PStr s))"
  using assms
  by (cases a; cases m)
     (simp_all add: change_lookup_def make_instr_names contains_str is_str_def)

lemma well_formed_opname:
  "well_formed (Instr (opname a m) arg) \<Longrightarrow> m \<noteq> Deref \<Longrightarrow> \<exists>s. arg = PStr s"
  by (cases arg) (simp_all add: well_formed_def check_arg_opname is_str_def)

lemma change_lookup_other:
  "name \<notin> set [''LOAD_FAST'', ''LOAD_DEREF'', ''LOAD_NAME'', ''LOAD_GLOBAL'',
                 ''STORE_FAST'', ''STORE_DEREF'', ''STORE_NAME'', ''STORE_GLOBAL'',
                 ''DELETE_FAST'', ''DELETE_NAME'', ''DELETE_GLOBAL''] \<Longrightarrow>
   change_lookup params existing (Instr name arg) = Inr (Instr name arg)"
  by (simp add: change_lookup_def)

lemma rewritten_opname:
  assumes "name \<in> set [''LOAD_FAST'', ''LOAD_NAME'', ''LOAD_GLOBAL'',
                 ''STORE_FAST'', ''STORE_NAME'', ''STORE_GLOBAL'',
                 ''DELETE_FAST'', ''DELETE_NAME'', ''DELETE_GLOBAL'']"
  shows "\<exists>a m. name = opname a m \<and> m \<noteq> Deref"
proof -
  have c: "x = opname a m \<Longrightarrow> m \<noteq> Deref \<Longrightarrow> \<exists>a m. x = opname a m \<and> m \<noteq> Deref"
    for x a m by blast
  from assms have "name = opname Load Fast \<or> name = opname Load Name \<or>
      name = opname Load Global \<or> name = opname Store Fast \<or> name = opname Store Name \<or>
      name = opname Store Global \<or> name = opname Delete Fast \<or>
      name = opname Delete Name \<or> name = opname Delete Global"
    by simp
  then show ?thesis
  proof (elim disjE)
    assume "name = opname Load Fast" then show ?thesis by (rule c) simp
  next
    assume "name = opname Load Name" then show ?thesis by (rule c) simp
  next
    assume "name = opname Load Global" then show ?thesis by (rule c) simp
  next
    assume "name = opname Store Fast" then show ?thesis by (rule c) simp
  next
    assume "name = opname Store Name" then show ?thesis by (rule c) simp
  next
    assume "name = opname Store Global" then show ?thesis by (rule c) simp
  next
    assume "name = opname Delete Fast" then show ?thesis by (rule c) simp
  next
    assume "name = opname Delete Name" then show ?thesis by (rule c) simp
  next
    assume "name = opname Delete Global" then show ?thesis by (rule c) simp
  qed
qed

lemma change_lookup_succeeds:
  assumes "well_formed b" and "\<not> cell_access b"
  shows "\<exists>b'. change_lookup params existing b = Inr b'"
proof (cases b)
  case (Label l)
  then show ?thesis by (simp add: change_lookup_def)
next
  case (Instr name arg)
  show ?thesis
  proof (cases "name \<in> set [''LOAD_FAST'', ''LOAD_NAME'', ''LOAD_GLOBAL'',
                 ''STORE_FAST'', ''STORE_NAME'', ''STORE_GLOBAL'',
                 ''DELETE_FAST'', ''DELETE_NAME'', ''DELETE_GLOBAL'']")
    case True
    from rewritten_opname [OF this] obtain a m where n: "name = opname a m" and m: "m \<noteq> Deref"
      by blast
    with assms(1) Instr obtain s where "arg = PStr s" using well_formed_opname by blast
    with Instr n m show ?thesis by (simp add: change_lookup_opname)
  next
    case False
    moreover from assms(2) Instr have "name \<notin> set [''LOAD_DEREF'', ''STORE_DEREF'']"
      by (simp add: cell_access_def)
    ultimately show ?thesis using Instr by (simp add: change_lookup_other)
  qed
qed

lemma change_lookups_nth:
  "change_lookups params existing code = Inr code' \<Longrightarrow>
   length code' = length code \<and>
   (\<forall>i < length code. change_lookup params existing (code ! i) = Inr (code' ! i))"
proof (induction code arbitrary: code')
  case Nil
  then show ?case by simp
next
  case (Cons b code)
  from Cons.prems obtain b' rest where b: "change_lookup params existing b = Inr b'"
    and r: "change_lookups params existing code = Inr rest" and c: "code' = b' # rest"
    by (auto split: sum.splits)
  from Cons.IH [OF r] have l: "length rest = length code"
    and n: "\<forall>i < length code. change_lookup params existing (code ! i) = Inr (rest ! i)"
    by simp_all
  show ?case
  proof (intro conjI allI impI)
    show "length code' = length (b # code)" using c l by simp
  next
    fix i assume "i < length (b # code)"
    then show "change_lookup params existing ((b # code) ! i) = Inr (code' ! i)"
      using b n c by (cases i) simp_all
  qed
qed

lemma change_lookups_succeeds:
  "\<forall>b \<in> set code. well_formed b \<and> \<not> cell_access b \<Longrightarrow>
   \<exists>code'. change_lookups params existing code = Inr code'"
proof (induction code)
  case Nil
  show ?case by simp
next
  case (Cons b code)
  then obtain code' where "change_lookups params existing code = Inr code'" by auto
  moreover from Cons.prems obtain b' where "change_lookup params existing b = Inr b'"
    using change_lookup_succeeds [of b params existing] by auto
  ultimately show ?case by simp
qed

text \<open>
  A load or store of a closure cell carries a cell object, which is no parameter name, cannot
  be looked up in a dictionary of locals and is refused as the argument of a local-slot or
  name-indexed instruction: the rewriting of such an instruction raises \<open>TypeError\<close>.
\<close>

lemma change_lookup_cell:
  assumes "name \<in> set [''LOAD_DEREF'', ''STORE_DEREF'']" and "is_cell arg"
  shows "change_lookup params existing (Instr name arg) = Inl (Exc C_TypeError arg)"
proof -
  have c: "contains existing arg = Inl (Exc C_TypeError arg) \<or>
      contains existing arg = Inr False \<or> contains existing arg = Inr True"
    by (cases existing) (auto simp: contains_def)
  from assms(2) have n: "\<not> is_str arg" by (cases arg) (simp_all add: is_cell_def is_str_def)
  from assms(1) have "name = ''LOAD_DEREF'' \<or> name = ''STORE_DEREF''" by simp
  then show ?thesis
  proof
    assume "name = ''LOAD_DEREF''"
    with c n show ?thesis
      by (auto simp: change_lookup_def make_instr_names)
  next
    assume "name = ''STORE_DEREF''"
    with c n show ?thesis
      by (auto simp: change_lookup_def make_instr_names)
  qed
qed

text \<open>
  Claim C3, as amended.  On a sequence of well-formed elements that holds no load or store of
  a closure cell, function-mode rewriting succeeds and keeps the length of the sequence and
  the argument of every instruction.  A load, store or delete of a local-slot, name-indexed
  or global variable is converted to local-slot addressing when the name is among the
  parameter names; otherwise a local-slot access is converted to name-indexed addressing when
  the name is among the existing locals and stays a local-slot access when it is not, while a
  name-indexed or global access keeps its addressing.
\<close>

theorem change_lookups_addressing:
  assumes "\<forall>b \<in> set code. well_formed b \<and> \<not> cell_access b"
  shows "\<exists>code'. change_lookups params existing code = Inr code' \<and>
    length code' = length code \<and>
    (\<forall>i a m arg. i < length code \<and> code ! i = Instr (opname a m) arg \<and> m \<noteq> Deref \<longrightarrow>
       code' ! i =
         Instr (opname a (if arg \<in> set params then Fast
                          else if m = Fast
                               then (if arg \<in> set (names_of existing) then Name else Fast)
                          else m)) arg)"
proof -
  from change_lookups_succeeds [OF assms] obtain code' where
    c: "change_lookups params existing code = Inr code'" by blast
  note n = change_lookups_nth [OF c]
  have "code' ! i =
         Instr (opname a (if arg \<in> set params then Fast
                          else if m = Fast
                               then (if arg \<in> set (names_of existing) then Name else Fast)
                          else m)) arg"
    if i: "i < length code" and e: "code ! i = Instr (opname a m) arg" and m: "m \<noteq> Deref"
    for i a m arg
  proof -
    from i assms e have "well_formed (Instr (opname a m) arg)" by (metis nth_mem)
    from well_formed_opname [OF this m] obtain s where s: "arg = PStr s" by blast
    from n i have "Inr (code' ! i) = change_lookup params existing (code ! i)" by simp
    also have "\<dots> = change_lookup params existing (Instr (opname a m) (PStr s))"
      using e s by simp
    also note change_lookup_opname [OF m]
    finally show ?thesis using s by simp
  qed
  with c n show ?thesis by blast
qed

theorem change_lookups_addressing_witness:
  "change_lookups [PStr ''n''] (Dict [(PStr ''y'', PInt 1)])
     [Instr ''LOAD_GLOBAL'' (PStr ''n''), Instr ''LOAD_FAST'' (PStr ''y''),
      Label (Code_label 0), Instr ''STORE_FAST'' (PStr ''z''),
      Instr ''DELETE_NAME'' (PStr ''w''), Instr ''DELETE_DEREF'' (PCellVar ''c'')]
   = Inr [Instr ''LOAD_FAST'' (PStr ''n''), Instr ''LOAD_NAME'' (PStr ''y''),
      Label (Code_label 0), Instr ''STORE_FAST'' (PStr ''z''),
      Instr ''DELETE_NAME'' (PStr ''w''), Instr ''DELETE_DEREF'' (PCellVar ''c'')]"
proof -
  let ?code = "[Instr ''LOAD_GLOBAL'' (PStr ''n''), Instr ''LOAD_FAST'' (PStr ''y''),
      Label (Code_label 0), Instr ''STORE_FAST'' (PStr ''z''),
      Instr ''DELETE_NAME'' (PStr ''w''), Instr ''DELETE_DEREF'' (PCellVar ''c'')]"
  have h: "\<forall>b \<in> set ?code. well_formed b \<and> \<not> cell_access b"
    by (simp add: well_formed_def cell_access_def check_arg_def hasfree_def haslocal_def
        hasname_def is_str_def is_cell_def)
  have v: "change_lookups [PStr ''n''] (Dict [(PStr ''y'', PInt 1)]) ?code
     = Inr [Instr ''LOAD_FAST'' (PStr ''n''), Instr ''LOAD_NAME'' (PStr ''y''),
      Label (Code_label 0), Instr ''STORE_FAST'' (PStr ''z''),
      Instr ''DELETE_NAME'' (PStr ''w''), Instr ''DELETE_DEREF'' (PCellVar ''c'')]"
    by code_simp
  from change_lookups_addressing [OF h, of "[PStr ''n'']" "Dict [(PStr ''y'', PInt 1)]"]
  obtain code' where
    c: "change_lookups [PStr ''n''] (Dict [(PStr ''y'', PInt 1)]) ?code = Inr code'"
    and a: "\<forall>i a m arg. i < length ?code \<and> ?code ! i = Instr (opname a m) arg \<and> m \<noteq> Deref \<longrightarrow>
       code' ! i =
         Instr (opname a (if arg \<in> set [PStr ''n''] then Fast
                          else if m = Fast
                               then (if arg \<in> set (names_of (Dict [(PStr ''y'', PInt 1)]))
                                     then Name else Fast)
                          else m)) arg"
    by (elim exE conjE)
  have pre: "1 < length ?code \<and> ?code ! 1 = Instr (opname Load Fast) (PStr ''y'') \<and>
      Fast \<noteq> Deref"
    by simp
  from a [rule_format, OF pre]
  have "code' ! 1 = Instr ''LOAD_NAME'' (PStr ''y'')" by simp
  with c v show ?thesis by simp
qed

text \<open>
  Claim C3 as stated fails: a global load of a name that is neither a parameter nor an
  existing local is not converted to local-slot addressing; it stays a global load.
\<close>

theorem change_lookups_global_counterexample:
  "change_lookups [] (Dict []) [Instr (opname Load Global) (PStr ''x'')]
     = Inr [Instr (opname Load Global) (PStr ''x'')] \<and>
   change_lookups [] (Dict []) [Instr (opname Load Global) (PStr ''x'')]
     \<noteq> Inr [Instr (opname Load Fast) (PStr ''x'')]"
  by (simp add: change_lookup_def)

subsection \<open>Name resolver and exit handler\<close>

text \<open>
  Claim C8.  \<open>load_name\<close> returns the binding of the name found first among the frame's
  local, then global, then built-in bindings, and raises \<open>NameError\<close> exactly when none of
  the three binds the name.  The function returns a value or an error and nothing else: the
  frame is not changed.
\<close>

theorem load_name_lookup_order:
  "(map_of (f_locals frame) name = Some v \<longrightarrow> load_name frame name = Inr v) \<and>
   (map_of (f_locals frame) name = None \<and> map_of (f_globals frame) name = Some v
      \<longrightarrow> load_name frame name = Inr v) \<and>
   (map_of (f_locals frame) name = None \<and> map_of (f_globals frame) name = None \<and>
    map_of (f_builtins frame) name = Some v \<longrightarrow> load_name frame name = Inr v) \<and>
   ((\<exists>e. load_name frame name = Inl e) \<longleftrightarrow>
      map_of (f_locals frame) name = None \<and> map_of (f_globals frame) name = None \<and>
      map_of (f_builtins frame) name = None) \<and>
   (\<forall>e. load_name frame name = Inl e \<longrightarrow> e = Exc C_NameError name)"
  by (auto simp: load_name_def split: option.splits)

theorem load_name_lookup_order_witness:
  "load_name frame0 (PStr ''x'') = Inr (PInt 1) \<and>
   map_of (f_locals frame0) (PStr ''x'') = Some (PInt 1) \<and>
   load_name frame0 (PStr ''y'') = Inr (PInt 2) \<and>
   load_name frame0 (PStr ''len'') = Inr (PObj 9) \<and>
   load_name frame0 (PStr ''z'') = Inl (Exc C_NameError (PStr ''z''))"
  using load_name_lookup_order [of frame0 "PStr ''x''" "PInt 1"]
  by (simp add: frame0_def load_name_def)


subsection \<open>Capturing modified locals\<close>

lemma update_values:
  "(k', v') \<in> set (AList.update k v al) \<Longrightarrow> (k' = k \<and> v' = v) \<or> (k', v') \<in> set al"
  by (induction al) (auto split: if_splits)

lemma modified_loop_values:
  "(k, v) \<in> set (modified_loop this pre items acc) \<Longrightarrow>
     (k, v) \<in> set acc \<or> ((k, v) \<in> set items \<and> v \<noteq> this)"
proof (induction this pre items acc rule: modified_loop.induct)
  case (1 this pre acc)
  then show ?case by simp
next
  case (2 this pre name w items acc)
  then show ?case
    by (auto split: if_splits option.splits dest!: update_values)
qed

text \<open>
  Claim C9.  After entry, the exit handler of \<open>CaptureModifiedLocals\<close> succeeds, and the
  mapping it reports holds only bindings of the frame whose value is not the hack object
  itself: no name is reported as bound to the hack object, whether or not the name existed
  before the block.
\<close>

theorem modified_locals_exclude_self:
  assumes "pre_locals self = Some pre"
  shows "\<exists>self' retcode m.
      CaptureModifiedLocals_exit self frame exc_type_arg = Inr (self', retcode) \<and>
      modified_locals self' = Some m \<and>
      (\<forall>(name, v) \<in> set m. v \<noteq> PObj (self_id self) \<and> (name, v) \<in> set (f_locals frame)) \<and>
      (\<forall>name. map_of m name \<noteq> Some (PObj (self_id self)))"
proof -
  let ?m = "modified_loop (PObj (self_id self)) pre (f_locals frame) []"
  have a: "\<forall>(name, v) \<in> set ?m. v \<noteq> PObj (self_id self) \<and> (name, v) \<in> set (f_locals frame)"
    using modified_loop_values [of _ _ "PObj (self_id self)" pre "f_locals frame" "[]"] by auto
  have b: "\<forall>name. map_of ?m name \<noteq> Some (PObj (self_id self))"
    using a by (auto dest!: map_of_SomeD)
  show ?thesis using assms a b by (simp add: CaptureModifiedLocals_exit_def)
qed

theorem modified_locals_exclude_self_witness:
  "pre_locals hack_ml = Some [(PStr ''x'', PInt 7)] \<and>
   map_of (f_locals frame_ml) (PStr ''f'') = Some (PObj (self_id hack_ml)) \<and>
   (\<exists>self' retcode.
      CaptureModifiedLocals_exit hack_ml frame_ml None = Inr (self', retcode) \<and>
      modified_locals self' = Some [(PStr ''y'', PInt 8), (PStr ''z'', PInt 9)])"
  using modified_locals_exclude_self [of hack_ml "[(PStr ''x'', PInt 7)]" frame_ml None]
  by (simp add: hack_ml_def frame_ml_def CaptureModifiedLocals_exit_def)

subsection \<open>Capturing assigned locals\<close>

lemma remdups_snoc: "remdups (ys @ [n]) = filter (\<lambda>k. k \<noteq> n) (remdups ys) @ [n]"
  by (induction ys) auto

lemma first_assigned_remdups: "first_assigned ns = rev (remdups (rev ns))"
  by (induction ns) (simp_all add: remdups_snoc rev_filter)

lemma set_first_assigned: "set (first_assigned ns) = set ns"
  by (induction ns) auto




subsection \<open>Calling with captured keyword arguments\<close>

lemma map_of_dict_update:
  "map_of (dict_update d other) = map_of d ++ map_of (rev other)"
  unfolding dict_update_def
  by (induction other arbitrary: d) (auto simp: update_conv' fun_eq_iff map_add_def split: option.splits)

lemma map_of_rev_distinct: "distinct (map fst xs) \<Longrightarrow> map_of (rev xs) = map_of xs"
proof (induction xs)
  case Nil
  show ?case by simp
next
  case (Cons p xs)
  obtain k v where p: "p = (k, v)" by (cases p)
  from Cons.prems p have k: "map_of xs k = None" and d: "distinct (map fst xs)"
    by (simp_all add: map_of_eq_None_iff)
  have "map_of (rev (p # xs)) = map_of [(k, v)] ++ map_of xs"
    using Cons.IH [OF d] by (simp add: p)
  also have "\<dots> = map_of (p # xs)"
    using k by (auto simp: fun_eq_iff map_add_def p split: option.splits)
  finally show ?case .
qed

lemma collect_locals_distinct:
  "collect_locals frame bc acc = Inr r \<Longrightarrow> distinct (map fst acc) \<Longrightarrow> distinct (map fst r)"
  by (induction frame bc acc rule: collect_locals.induct)
     (auto split: if_splits option.splits elem.splits simp: distinct_update)

lemma CaptureBytecode_exit_more:
  "CaptureBytecode_exit from_code to_bytecode self frame et = Inr (self1, retcode) \<Longrightarrow>
     \<exists>asc bc. self1 = self\<lparr> as_clause := Some asc, bytecode := Some bc \<rparr>"
  by (auto simp: CaptureBytecode_exit_def split: sum.splits prod.splits)

lemma CaptureLocals_exit_result:
  assumes "CaptureLocals_exit from_code to_bytecode self frame et = Inr (self1, retcode)"
  shows "\<exists>asc bc captured. self1 = self\<lparr> as_clause := Some asc, bytecode := Some bc,
            locals := Some captured \<rparr> \<and> distinct (map fst captured)"
proof -
  from assms obtain s0 bc captured where
    cb: "CaptureBytecode_exit from_code to_bytecode self frame et = Inr (s0, retcode)"
    and bc: "bytecode s0 = Some bc"
    and cl: "collect_locals frame bc [] = Inr captured"
    and s1: "self1 = s0\<lparr> locals := Some captured \<rparr>"
    by (auto simp: CaptureLocals_exit_def split: sum.splits prod.splits option.splits)
  from CaptureBytecode_exit_more [OF cb] obtain asc bc' where
    "s0 = self\<lparr> as_clause := Some asc, bytecode := Some bc' \<rparr>" by blast
  moreover from collect_locals_distinct [OF cl] have "distinct (map fst captured)" by simp
  ultimately show ?thesis using s1 by blast
qed

text \<open>
  Claim C10.  When the exit handler of \<open>CaptureLocals\<close> has captured the locals, \<open>xkwargs\<close>
  calls the wrapped callable with the positional arguments of the constructor and with the
  keyword arguments of the constructor updated by the captured locals: a keyword that is also
  a captured name carries the captured value, and every other keyword of the constructor is
  passed as given.
\<close>

theorem xkwargs_captured_override:
  assumes "CaptureLocals_exit from_code to_bytecode self frame et = Inr (self1, retcode)"
  shows "\<exists>captured. locals self1 = Some captured \<and>
     xkwargs_exit exec_code from_code to_bytecode t self frame et =
       (case xkwargs_func self (xkwargs_args self)
               (dict_update (xkwargs_kwds self) captured) of
          Inl e \<Rightarrow> Inl e
        | Inr retval \<Rightarrow>
            (case run_as_clause exec_code t self1 frame retval of
               Inl e \<Rightarrow> Inl e
             | Inr (t', frame') \<Rightarrow> Inr (self1, t', frame', retcode))) \<and>
     (\<forall>k. map_of (dict_update (xkwargs_kwds self) captured) k =
        (case map_of captured k of Some v \<Rightarrow> Some v | None \<Rightarrow> map_of (xkwargs_kwds self) k))"
proof -
  from CaptureLocals_exit_result [OF assms] obtain asc bc captured where
    s1: "self1 = self\<lparr> as_clause := Some asc, bytecode := Some bc, locals := Some captured \<rparr>"
    and d: "distinct (map fst captured)" by blast
  have l: "locals self1 = Some captured" by (simp add: s1)
  have f: "xkwargs_func self1 = xkwargs_func self" "xkwargs_args self1 = xkwargs_args self"
    "xkwargs_kwds self1 = xkwargs_kwds self" by (simp_all add: s1)
  have m: "\<forall>k. map_of (dict_update (xkwargs_kwds self) captured) k =
        (case map_of captured k of Some v \<Rightarrow> Some v | None \<Rightarrow> map_of (xkwargs_kwds self) k)"
    by (simp add: map_of_dict_update map_of_rev_distinct [OF d] map_add_def)
  show ?thesis
    using assms l f m by (simp add: xkwargs_exit_def Let_def)
qed


theorem xkwargs_captured_override_witness:
  "(\<exists>self1. CaptureLocals_exit (\<lambda>c. code_kw) (lift_example pool_kw [12]) hack_kw frame_kw None
       = Inr (self1, False) \<and> locals self1 = Some [(PStr ''a'', PInt 5)]) \<and>
   map_of (dict_update (xkwargs_kwds hack_kw) [(PStr ''a'', PInt 5)]) (PStr ''a'') = Some (PInt 5) \<and>
   map_of (dict_update (xkwargs_kwds hack_kw) [(PStr ''a'', PInt 5)]) (PStr ''b'') = Some (PInt 2) \<and>
   (case xkwargs_exit exec_none (\<lambda>c. code_kw) (lift_example pool_kw [12]) tracer0 hack_kw
           frame_kw None of
      Inl e \<Rightarrow> False
    | Inr (s, t1, f1, rc) \<Rightarrow>
        (case invoke_trace_funcs t1 f1 of
           (res, t2, f2) \<Rightarrow> res = None \<and> map_of (f_locals f2) (PStr ''result'') = Some (PInt 10)))"
proof -
  let ?s1 = "hack_kw\<lparr> as_clause := Some [Instr ''STORE_FAST'' (PStr ''result'')],
      bytecode := Some [Instr ''LOAD_CONST'' (PInt 5), Instr ''STORE_FAST'' (PStr ''a'')],
      locals := Some [(PStr ''a'', PInt 5)] \<rparr>"
  have e: "extract_code (\<lambda>c. code_kw) (lift_example pool_kw [12]) frame_kw (Some 12) (Some 24)
      = Inr [Instr ''CALL_FUNCTION_KW'' (PInt 3), Instr ''SETUP_WITH'' (PLabel (Code_label 12)),
             Instr ''STORE_FAST'' (PStr ''result''), Instr ''LOAD_CONST'' (PInt 5),
             Instr ''STORE_FAST'' (PStr ''a''), Instr ''POP_BLOCK'' PUnset]"
    by code_simp
  have td: "strip_teardown [Instr ''LOAD_CONST'' (PInt 5), Instr ''STORE_FAST'' (PStr ''a''),
      Instr ''POP_BLOCK'' PUnset]
      = Inr [Instr ''LOAD_CONST'' (PInt 5), Instr ''STORE_FAST'' (PStr ''a'')]"
    by code_simp
  have bs: "bc_start hack_kw = Some 12" and li: "f_lasti frame_kw = 24"
    and fl: "f_locals frame_kw = [(PStr ''result'', PObj 1), (PStr ''a'', PInt 5)]"
    by (simp_all add: hack_kw_def frame_kw_def)
  have h: "CaptureLocals_exit (\<lambda>c. code_kw) (lift_example pool_kw [12]) hack_kw frame_kw None
      = Inr (?s1, False)"
    by (simp add: CaptureLocals_exit_def CaptureBytecode_exit_def bs li fl e td
        split_as_clause_def instr_name_def WithHack_exit_def)
  have l: "locals ?s1 = Some [(PStr ''a'', PInt 5)]" by simp
  have k1: "map_of (dict_update (xkwargs_kwds hack_kw) [(PStr ''a'', PInt 5)]) (PStr ''a'')
      = Some (PInt 5)" by code_simp
  have k2: "map_of (dict_update (xkwargs_kwds hack_kw) [(PStr ''a'', PInt 5)]) (PStr ''b'')
      = Some (PInt 2)" by code_simp
  have v: "(case xkwargs_exit exec_none (\<lambda>c. code_kw) (lift_example pool_kw [12]) tracer0 hack_kw
           frame_kw None of
      Inl e \<Rightarrow> False
    | Inr (s, t1, f1, rc) \<Rightarrow>
        (case invoke_trace_funcs t1 f1 of
           (res, t2, f2) \<Rightarrow> res = None \<and> map_of (f_locals f2) (PStr ''result'') = Some (PInt 10)))"
    by code_simp
  from xkwargs_captured_override [OF h, of exec_none tracer0] h l k1 k2 v
  show ?thesis by blast
qed

subsection \<open>Frame trace injector\<close>

lemma update_not_single: "length (AList.update k v al) \<noteq> 1 \<Longrightarrow> al \<noteq> []"
  by (cases al) auto

lemma enable_tracing_tables:
  "injected_trace_funcs (enable_tracing x) = injected_trace_funcs x"
  "orig_trace_funcs (enable_tracing x) = orig_trace_funcs x"
  by (simp_all add: enable_tracing_def Let_def)

lemma inject_trace_func_result:
  assumes "tracer_consistent t frame"
  shows "\<exists>t1 funcs tr.
      inject_trace_func t frame func = Inr (t1, frame\<lparr> f_trace := Some Invoke_trace_funcs \<rparr>) \<and>
      map_of (injected_trace_funcs t1) (f_id frame) = Some (funcs @ [func]) \<and>
      map_of (orig_trace_funcs t1) (f_id frame) = Some tr \<and>
      sys_trace t1 \<noteq> None \<and>
      (f_trace frame \<noteq> Some Invoke_trace_funcs \<longrightarrow> funcs = [] \<and> tr = f_trace frame)"
proof (cases "f_trace frame = Some Invoke_trace_funcs")
  case True
  with assms obtain funcs tr where
    i: "map_of (injected_trace_funcs t) (f_id frame) = Some funcs"
    and j: "map_of (orig_trace_funcs t) (f_id frame) = Some tr"
    by (auto simp: tracer_consistent_def)
  from j have "orig_trace_funcs t \<noteq> []" by auto
  with assms have s: "sys_trace t \<noteq> None" by (simp add: tracer_consistent_def)
  have fr: "frame\<lparr> f_trace := Some Invoke_trace_funcs \<rparr> = frame" using True by simp
  show ?thesis
    using True i j s fr
    by (auto simp: inject_trace_func_def update_conv')
next
  case False
  let ?t1 = "t\<lparr> orig_trace_funcs :=
                 AList.update (f_id frame) (f_trace frame) (orig_trace_funcs t) \<rparr>"
  let ?t2 = "?t1\<lparr> injected_trace_funcs :=
                 AList.update (f_id frame) [] (injected_trace_funcs ?t1) \<rparr>"
  let ?t3 = "if length (orig_trace_funcs ?t2) = 1 then enable_tracing ?t2 else ?t2"
  have inj: "injected_trace_funcs ?t3 = AList.update (f_id frame) [] (injected_trace_funcs t)"
    and orig: "orig_trace_funcs ?t3
        = AList.update (f_id frame) (f_trace frame) (orig_trace_funcs t)"
    by (simp_all add: enable_tracing_tables)
  have sys: "sys_trace ?t3 \<noteq> None"
  proof (cases "length (orig_trace_funcs ?t2) = 1")
    case True
    then show ?thesis by (simp add: enable_tracing_def Let_def)
  next
    case False
    then have "orig_trace_funcs t \<noteq> []" by (auto dest: update_not_single)
    with assms False show ?thesis by (simp add: tracer_consistent_def)
  qed
  have "inject_trace_func t frame func =
      Inr (?t3\<lparr> injected_trace_funcs :=
                 AList.update (f_id frame) ([] @ [func]) (injected_trace_funcs ?t3) \<rparr>,
           frame\<lparr> f_trace := Some Invoke_trace_funcs \<rparr>)"
    using False unfolding inject_trace_func_def Let_def
    by (simp add: enable_tracing_tables update_conv')
  then show ?thesis
    using False sys orig inj by (auto simp: update_conv')
qed

lemma invoke_trace_funcs_result:
  assumes "map_of (injected_trace_funcs t1) (f_id f1) = Some funcs"
    and "map_of (orig_trace_funcs t1) (f_id f1) = Some tr"
    and "run_trace_funcs funcs f1 = (res, f')"
  shows "\<exists>t2. invoke_trace_funcs t1 f1 = (res, t2, f'\<lparr> f_trace := tr \<rparr>)"
  using assms
  by (auto simp: invoke_trace_funcs_def Let_def disable_tracing_def)

lemma run_trace_funcs_append:
  "run_trace_funcs (funcs @ [func]) f =
     (case run_trace_funcs funcs f of
        (Some e, f') \<Rightarrow> (Some e, f')
      | (None, f') \<Rightarrow> (case func f' of Inl e \<Rightarrow> (Some e, f') | Inr f'' \<Rightarrow> (None, f'')))"
  by (induction funcs arbitrary: f) (auto split: sum.splits)

subsection \<open>Replaying the as-clause\<close>

lemma any_store_fast_found:
  "\<forall>b \<in> set asc. is_instr b \<Longrightarrow> Instr ''STORE_FAST'' a \<in> set asc \<Longrightarrow>
     any_store_fast asc = Inr True"
proof (induction asc)
  case Nil
  then show ?case by simp
next
  case (Cons b asc)
  then show ?case
    by (cases b) (auto simp: instr_name_def is_instr_def)
qed

lemma scan_as_clause_instrs:
  "scan_as_clause acc bc = Inr (asc, rest) \<Longrightarrow> \<forall>b \<in> set acc. is_instr b \<Longrightarrow>
     (\<forall>b \<in> set asc. is_instr b) \<and> (bc \<noteq> [] \<longrightarrow> asc \<noteq> [])"
proof (induction acc bc rule: scan_as_clause.induct)
  case (1 acc)
  then show ?case by simp
next
  case (2 acc instr bc)
  then show ?case
    by (cases instr) (auto simp: instr_name_def is_instr_def split: if_splits)
qed

lemma CaptureBytecode_exit_as_clause:
  assumes "CaptureBytecode_exit from_code to_bytecode self frame et = Inr (self1, retcode)"
  shows "\<exists>asc. as_clause self1 = Some asc \<and> asc \<noteq> [] \<and> (\<forall>b \<in> set asc. is_instr b)"
proof -
  from assms obtain bc1 asc bc2 where "split_as_clause bc1 = Inr (asc, bc2)"
    and a: "as_clause self1 = Some asc"
    by (auto simp: CaptureBytecode_exit_def split: sum.splits prod.splits)
  then have "bc1 \<noteq> []" "scan_as_clause [] bc1 = Inr (asc, bc2)"
    by (auto simp: split_as_clause_def split: if_splits)
  from scan_as_clause_instrs [OF this(2)] this(1) a show ?thesis by simp
qed

lemma update_locals_binds:
  "\<exists>f'. update_locals [(name, v)] f = Inr f' \<and> map_of (f_locals f') name = Some v \<and>
     (\<forall>k. k \<noteq> name \<longrightarrow> map_of (f_locals f') k = map_of (f_locals f) k)"
  by (simp add: update_locals_def dict_update_def update_conv')

text \<open>
  What \<open>_set_context_locals\<close> leaves behind for one binding, from a consistent state of the
  injector: the dispatcher is the hook of the frame, a global hook is installed, and the
  function that stores the binding is pending last for the frame; when the dispatcher is then
  invoked for the frame and the functions pending before it do not raise, it returns
  normally, restores the hook of the frame and leaves the value bound to the name.
\<close>

lemma set_context_locals_pending:
  assumes "tracer_consistent t frame"
  shows "\<exists>t1 funcs tr.
      set_context_locals t frame [(name, v)]
        = Inr (t1, frame\<lparr> f_trace := Some Invoke_trace_funcs \<rparr>) \<and>
      sys_trace t1 \<noteq> None \<and>
      map_of (injected_trace_funcs t1) (f_id frame) = Some (funcs @ [update_locals [(name, v)]]) \<and>
      map_of (orig_trace_funcs t1) (f_id frame) = Some tr \<and>
      (f_trace frame \<noteq> Some Invoke_trace_funcs \<longrightarrow> funcs = [] \<and> tr = f_trace frame) \<and>
      (\<forall>f'. run_trace_funcs funcs (frame\<lparr> f_trace := Some Invoke_trace_funcs \<rparr>) = (None, f') \<longrightarrow>
         (\<exists>t2 f2. invoke_trace_funcs t1 (frame\<lparr> f_trace := Some Invoke_trace_funcs \<rparr>)
                     = (None, t2, f2) \<and>
            f_trace f2 = tr \<and> map_of (f_locals f2) name = Some v \<and>
            (\<forall>k. k \<noteq> name \<longrightarrow> map_of (f_locals f2) k = map_of (f_locals f') k)))"
proof -
  let ?f1 = "frame\<lparr> f_trace := Some Invoke_trace_funcs \<rparr>"
  let ?u = "update_locals [(name, v)]"
  from inject_trace_func_result [OF assms, of ?u] obtain t1 funcs tr where
    inj: "inject_trace_func t frame ?u = Inr (t1, ?f1)"
    and tab: "map_of (injected_trace_funcs t1) (f_id frame) = Some (funcs @ [?u])"
    and orig: "map_of (orig_trace_funcs t1) (f_id frame) = Some tr"
    and sys: "sys_trace t1 \<noteq> None"
    and fresh: "f_trace frame \<noteq> Some Invoke_trace_funcs \<longrightarrow> funcs = [] \<and> tr = f_trace frame"
    by blast
  have fire: "\<exists>t2 f2. invoke_trace_funcs t1 ?f1 = (None, t2, f2) \<and>
            f_trace f2 = tr \<and> map_of (f_locals f2) name = Some v \<and>
            (\<forall>k. k \<noteq> name \<longrightarrow> map_of (f_locals f2) k = map_of (f_locals f') k)"
    if r: "run_trace_funcs funcs ?f1 = (None, f')" for f'
  proof -
    from update_locals_binds [of name v f'] obtain f'' where
      u: "?u f' = Inr f''" and b: "map_of (f_locals f'') name = Some v"
      and o: "\<forall>k. k \<noteq> name \<longrightarrow> map_of (f_locals f'') k = map_of (f_locals f') k"
      by blast
    from r u have "run_trace_funcs (funcs @ [?u]) ?f1 = (None, f'')"
      by (simp add: run_trace_funcs_append)
    from invoke_trace_funcs_result [of t1 ?f1, OF _ _ this] tab orig obtain t2 where
      "invoke_trace_funcs t1 ?f1 = (None, t2, f''\<lparr> f_trace := tr \<rparr>)" by auto
    with b o show ?thesis by simp
  qed
  from inj have "set_context_locals t frame [(name, v)] = Inr (t1, ?f1)"
    by (simp add: set_context_locals_def)
  with sys tab orig fresh fire show ?thesis by blast
qed

text \<open>
  Claim C4.  For an as-clause that is the single instruction \<open>STORE_FAST name\<close>,
  \<open>_run_as_clause\<close> does what \<open>inject_trace_func\<close> does with the function that stores the
  value under the name in the frame's locals, whatever the executor of the general case is.
  From a consistent state of the injector the call returns with the dispatcher installed as
  the hook of the context frame, a global hook installed, and that function pending last for
  the frame; an invocation of the dispatcher for the frame, when the functions pending before
  it do not raise, returns normally, restores the hook of the frame, and leaves the value
  bound to the name and every other name as those functions left it.  For the single
  instruction \<open>POP_TOP\<close> the call changes nothing; and for an as-clause of several
  instructions that holds a \<open>STORE_FAST\<close> it raises \<open>NotImplementedError\<close> and returns no
  state.  The as-clause that the exit handler of \<open>CaptureBytecode\<close> stores is never empty and
  holds instructions only (lemma \<open>CaptureBytecode_exit_as_clause\<close>).
\<close>

theorem run_as_clause_cases:
  "(as_clause self = Some [Instr ''STORE_FAST'' name] \<longrightarrow>
      run_as_clause exec_code t self frame v
        = inject_trace_func t frame (update_locals [(name, v)])) \<and>
   (as_clause self = Some [Instr ''STORE_FAST'' name] \<and> tracer_consistent t frame \<longrightarrow>
      (\<exists>t1 funcs tr.
         run_as_clause exec_code t self frame v
           = Inr (t1, frame\<lparr> f_trace := Some Invoke_trace_funcs \<rparr>) \<and>
         sys_trace t1 \<noteq> None \<and>
         map_of (injected_trace_funcs t1) (f_id frame)
           = Some (funcs @ [update_locals [(name, v)]]) \<and>
         map_of (orig_trace_funcs t1) (f_id frame) = Some tr \<and>
         (f_trace frame \<noteq> Some Invoke_trace_funcs \<longrightarrow> funcs = [] \<and> tr = f_trace frame) \<and>
         (\<forall>f'. run_trace_funcs funcs (frame\<lparr> f_trace := Some Invoke_trace_funcs \<rparr>)
                 = (None, f') \<longrightarrow>
            (\<exists>t2 f2. invoke_trace_funcs t1 (frame\<lparr> f_trace := Some Invoke_trace_funcs \<rparr>)
                        = (None, t2, f2) \<and>
               f_trace f2 = tr \<and> map_of (f_locals f2) name = Some v \<and>
               (\<forall>k. k \<noteq> name \<longrightarrow> map_of (f_locals f2) k = map_of (f_locals f') k))))) \<and>
   (as_clause self = Some [Instr ''POP_TOP'' a] \<longrightarrow>
      run_as_clause exec_code t self frame v = Inr (t, frame)) \<and>
   (as_clause self = Some asc \<and> 1 < length asc \<and> (\<forall>b \<in> set asc. is_instr b) \<and>
    (\<exists>a. Instr ''STORE_FAST'' a \<in> set asc) \<longrightarrow>
      run_as_clause exec_code t self frame v
        = Inl (Exc C_NotImplementedError (PStr ''Cannot handle this as clause'')))"
proof (intro conjI impI)
  assume "as_clause self = Some [Instr ''STORE_FAST'' name]"
  then show "run_as_clause exec_code t self frame v
      = inject_trace_func t frame (update_locals [(name, v)])"
    by (simp add: run_as_clause_def set_context_locals_def)
next
  assume h: "as_clause self = Some [Instr ''STORE_FAST'' name] \<and> tracer_consistent t frame"
  then have "run_as_clause exec_code t self frame v = set_context_locals t frame [(name, v)]"
    by (simp add: run_as_clause_def)
  with set_context_locals_pending [of t frame name v] h
  show "\<exists>t1 funcs tr.
         run_as_clause exec_code t self frame v
           = Inr (t1, frame\<lparr> f_trace := Some Invoke_trace_funcs \<rparr>) \<and>
         sys_trace t1 \<noteq> None \<and>
         map_of (injected_trace_funcs t1) (f_id frame)
           = Some (funcs @ [update_locals [(name, v)]]) \<and>
         map_of (orig_trace_funcs t1) (f_id frame) = Some tr \<and>
         (f_trace frame \<noteq> Some Invoke_trace_funcs \<longrightarrow> funcs = [] \<and> tr = f_trace frame) \<and>
         (\<forall>f'. run_trace_funcs funcs (frame\<lparr> f_trace := Some Invoke_trace_funcs \<rparr>)
                 = (None, f') \<longrightarrow>
            (\<exists>t2 f2. invoke_trace_funcs t1 (frame\<lparr> f_trace := Some Invoke_trace_funcs \<rparr>)
                        = (None, t2, f2) \<and>
               f_trace f2 = tr \<and> map_of (f_locals f2) name = Some v \<and>
               (\<forall>k. k \<noteq> name \<longrightarrow> map_of (f_locals f2) k = map_of (f_locals f') k)))"
    by simp
next
  assume "as_clause self = Some [Instr ''POP_TOP'' a]"
  then show "run_as_clause exec_code t self frame v = Inr (t, frame)"
    by (simp add: run_as_clause_def)
next
  assume h: "as_clause self = Some asc \<and> 1 < length asc \<and> (\<forall>b \<in> set asc. is_instr b) \<and>
    (\<exists>a. Instr ''STORE_FAST'' a \<in> set asc)"
  then obtain a where "Instr ''STORE_FAST'' a \<in> set asc" by blast
  with h have "any_store_fast asc = Inr True" by (intro any_store_fast_found) simp_all
  moreover from h have "asc \<noteq> []" "length asc \<noteq> 1" by auto
  ultimately show "run_as_clause exec_code t self frame v
        = Inl (Exc C_NotImplementedError (PStr ''Cannot handle this as clause''))"
    using h by (simp add: run_as_clause_def)
qed

theorem run_as_clause_cases_witness:
  "tracer_consistent tracer0 frame0 \<and>
   (\<exists>t1 t2 f2.
      run_as_clause exec_none tracer0 hack_as frame0 (PInt 3)
        = Inr (t1, frame0\<lparr> f_trace := Some Invoke_trace_funcs \<rparr>) \<and>
      sys_trace t1 \<noteq> None \<and>
      invoke_trace_funcs t1 (frame0\<lparr> f_trace := Some Invoke_trace_funcs \<rparr>) = (None, t2, f2) \<and>
      f_trace f2 = None \<and>
      map_of (f_locals f2) (PStr ''f'') = Some (PInt 3) \<and>
      map_of (f_locals f2) (PStr ''x'') = Some (PInt 1)) \<and>
   run_as_clause exec_none tracer0 hack_unpack frame0 (PInt 3)
     = Inl (Exc C_NotImplementedError (PStr ''Cannot handle this as clause''))"
proof -
  let ?f1 = "frame0\<lparr> f_trace := Some Invoke_trace_funcs \<rparr>"
  note c = run_as_clause_cases [of hack_as "PStr ''f''" exec_none tracer0 frame0 "PInt 3" PNone
      "[Instr ''UNPACK_SEQUENCE'' (PInt 2), Instr ''STORE_FAST'' (PStr ''a'')]"]
  have h1: "as_clause hack_as = Some [Instr ''STORE_FAST'' (PStr ''f'')]"
    by (simp add: hack_as_def)
  have h2: "tracer_consistent tracer0 frame0"
    by (simp add: tracer_consistent_def tracer0_def frame0_def)
  have h3: "f_trace frame0 \<noteq> Some Invoke_trace_funcs" by (simp add: frame0_def)
  from c h1 h2 obtain t1 funcs tr where
    r: "run_as_clause exec_none tracer0 hack_as frame0 (PInt 3) = Inr (t1, ?f1)"
    and s: "sys_trace t1 \<noteq> None"
    and fr: "f_trace frame0 \<noteq> Some Invoke_trace_funcs \<longrightarrow> funcs = [] \<and> tr = f_trace frame0"
    and fire: "\<forall>f'. run_trace_funcs funcs ?f1 = (None, f') \<longrightarrow>
            (\<exists>t2 f2. invoke_trace_funcs t1 ?f1 = (None, t2, f2) \<and>
               f_trace f2 = tr \<and> map_of (f_locals f2) (PStr ''f'') = Some (PInt 3) \<and>
               (\<forall>k. k \<noteq> PStr ''f'' \<longrightarrow> map_of (f_locals f2) k = map_of (f_locals f') k))"
    by blast
  from fr h3 have e: "funcs = []" and tr: "tr = None" by (simp_all add: frame0_def)
  from e have "run_trace_funcs funcs ?f1 = (None, ?f1)" by simp
  with fire obtain t2 f2 where i: "invoke_trace_funcs t1 ?f1 = (None, t2, f2)"
    and ft: "f_trace f2 = tr" and b: "map_of (f_locals f2) (PStr ''f'') = Some (PInt 3)"
    and o: "\<forall>k. k \<noteq> PStr ''f'' \<longrightarrow> map_of (f_locals f2) k = map_of (f_locals ?f1) k"
    by blast
  from o have x: "map_of (f_locals f2) (PStr ''x'') = Some (PInt 1)"
    by (simp add: frame0_def)
  have a: "as_clause hack_unpack =
      Some [Instr ''UNPACK_SEQUENCE'' (PInt 2), Instr ''STORE_FAST'' (PStr ''a'')] \<and>
    1 < length [Instr ''UNPACK_SEQUENCE'' (PInt 2), Instr ''STORE_FAST'' (PStr ''a'')] \<and>
    (\<forall>b \<in> set [Instr ''UNPACK_SEQUENCE'' (PInt 2), Instr ''STORE_FAST'' (PStr ''a'')].
       is_instr b) \<and>
    (\<exists>a. Instr ''STORE_FAST'' a
       \<in> set [Instr ''UNPACK_SEQUENCE'' (PInt 2), Instr ''STORE_FAST'' (PStr ''a'')])"
    by (simp add: hack_unpack_def is_instr_def)
  from run_as_clause_cases [of hack_unpack "PStr ''f''" exec_none tracer0 frame0 "PInt 3" PNone
      "[Instr ''UNPACK_SEQUENCE'' (PInt 2), Instr ''STORE_FAST'' (PStr ''a'')]"] a
  have u: "run_as_clause exec_none tracer0 hack_unpack frame0 (PInt 3)
     = Inl (Exc C_NotImplementedError (PStr ''Cannot handle this as clause''))"
    by blast
  from h2 r s i ft tr b x u show ?thesis by blast
qed

subsection \<open>Skipping the block\<close>

lemma run_trace_funcs_exit:
  "\<exists>e f'. run_trace_funcs (funcs @ [exit_context]) f = (Some e, f')"
  by (induction funcs arbitrary: f) (auto simp: exit_context_def split: sum.splits)

text \<open>
  Claim C6.  When \<open>dont_execute\<close> is set and \<open>must_execute\<close> is not, \<open>__enter__\<close> returns
  normally from a consistent state of the injector: it leaves the dispatcher installed as the
  hook of the context frame, a global hook installed and \<open>_exit_context\<close>, which always
  raises the sentinel, pending last for the frame, and it changes nothing else of the frame.
  The sentinel is raised when the dispatcher is invoked for the frame; with nothing else
  pending, the dispatcher then raises the sentinel and leaves the frame as it was before the
  entry.  The entry handler itself keeps no instruction of the body from running: what the
  frame executes before the interpreter invokes its hook is not decided here.
\<close>

theorem WithHack_enter_queues_sentinel:
  assumes "dont_execute self" and "\<not> must_execute self" and "tracer_consistent t frame"
  shows "\<exists>t1 funcs tr e t2 frame2.
      WithHack_enter t self frame = Inr (t1, frame\<lparr> f_trace := Some Invoke_trace_funcs \<rparr>) \<and>
      map_of (injected_trace_funcs t1) (f_id frame) = Some (funcs @ [exit_context]) \<and>
      map_of (orig_trace_funcs t1) (f_id frame) = Some tr \<and>
      sys_trace t1 \<noteq> None \<and>
      (\<forall>f. exit_context f = Inl (Exc C_ExitContext PNone)) \<and>
      invoke_trace_funcs t1 (frame\<lparr> f_trace := Some Invoke_trace_funcs \<rparr>)
        = (Some e, t2, frame2) \<and>
      (f_trace frame \<noteq> Some Invoke_trace_funcs \<longrightarrow>
          e = Exc C_ExitContext PNone \<and> frame2 = frame)"
proof -
  let ?f1 = "frame\<lparr> f_trace := Some Invoke_trace_funcs \<rparr>"
  from inject_trace_func_result [OF assms(3), of exit_context] obtain t1 funcs tr where
    inj: "inject_trace_func t frame exit_context = Inr (t1, ?f1)"
    and tab: "map_of (injected_trace_funcs t1) (f_id frame) = Some (funcs @ [exit_context])"
    and orig: "map_of (orig_trace_funcs t1) (f_id frame) = Some tr"
    and sys: "sys_trace t1 \<noteq> None"
    and fresh: "f_trace frame \<noteq> Some Invoke_trace_funcs \<longrightarrow> funcs = [] \<and> tr = f_trace frame"
    by blast
  have enter: "WithHack_enter t self frame = Inr (t1, ?f1)"
    using assms(1,2) inj by (simp add: WithHack_enter_def)
  from run_trace_funcs_exit [of funcs ?f1] obtain e f' where
    run: "run_trace_funcs (funcs @ [exit_context]) ?f1 = (Some e, f')" by blast
  from invoke_trace_funcs_result [of t1 ?f1, OF _ _ run] tab orig obtain t2 where
    inv: "invoke_trace_funcs t1 ?f1 = (Some e, t2, f'\<lparr> f_trace := tr \<rparr>)" by auto
  have fr: "f_trace frame \<noteq> Some Invoke_trace_funcs \<longrightarrow>
      e = Exc C_ExitContext PNone \<and> f'\<lparr> f_trace := tr \<rparr> = frame"
  proof
    assume "f_trace frame \<noteq> Some Invoke_trace_funcs"
    with fresh have "funcs = []" "tr = f_trace frame" by simp_all
    with run show "e = Exc C_ExitContext PNone \<and> f'\<lparr> f_trace := tr \<rparr> = frame"
      by (auto simp: exit_context_def)
  qed
  have ec: "\<forall>f. exit_context f = Inl (Exc C_ExitContext PNone)"
    by (simp add: exit_context_def)
  from enter tab orig sys ec inv fr show ?thesis by blast
qed

theorem WithHack_enter_queues_sentinel_witness:
  "dont_execute hack_skip \<and> \<not> must_execute hack_skip \<and> tracer_consistent tracer0 frame0 \<and>
   (\<exists>t1 t2.
      WithHack_enter tracer0 hack_skip frame0
        = Inr (t1, frame0\<lparr> f_trace := Some Invoke_trace_funcs \<rparr>) \<and>
      sys_trace t1 \<noteq> None \<and>
      invoke_trace_funcs t1 (frame0\<lparr> f_trace := Some Invoke_trace_funcs \<rparr>)
        = (Some (Exc C_ExitContext PNone), t2, frame0))"
proof -
  have h1: "dont_execute hack_skip" and h2: "\<not> must_execute hack_skip"
    by (simp_all add: hack_skip_def)
  have h3: "tracer_consistent tracer0 frame0"
    by (simp add: tracer_consistent_def tracer0_def frame0_def)
  have h4: "f_trace frame0 \<noteq> Some Invoke_trace_funcs" by (simp add: frame0_def)
  from WithHack_enter_queues_sentinel [OF h1 h2 h3] h4 h1 h2 h3 show ?thesis by blast
qed

subsection \<open>Target-redirect rewriting\<close>

lemma unwind_to_same: "unwind_to (length st) st = st"
  by (simp add: unwind_to_def)

lemma unwind_to_3: "unwind_to (length st) (a # b # c # st) = st"
  by (simp add: unwind_to_def)

lemma run_numeral:
  "run h code (numeral k) m =
     (if pc m = length code then Done m
      else
        (case step h code m of
           Next m' \<Rightarrow> run h code (pred_numeral k) m'
         | Raise e m' \<Rightarrow>
             (case unwind code e (blocks m') m' of
                Inl (Some m'') \<Rightarrow> run h code (pred_numeral k) m''
              | Inl None \<Rightarrow> Stuck_at m'
              | Inr e' \<Rightarrow> Propagate e')
         | Stuck \<Rightarrow> Stuck_at m))"
  by (simp add: numeral_eq_Suc)

lemma exec_SETUP_EXCEPT:
  "exec_instr h code ''SETUP_EXCEPT'' (PLabel l) m =
     Next (m\<lparr> pc := pc m + 1, blocks := Try_block l (length (stack m)) # blocks m \<rparr>)"
  by (simp add: exec_instr_def)

lemma exec_LOAD_FAST:
  "map_of (fast m) arg = Some v \<Longrightarrow>
   exec_instr h code ''LOAD_FAST'' arg m = Next (m\<lparr> pc := pc m + 1, stack := Val v # stack m \<rparr>)"
  by (simp add: exec_instr_def)

lemma exec_LOAD_CONST:
  "exec_instr h code ''LOAD_CONST'' arg m = Next (m\<lparr> pc := pc m + 1, stack := Val arg # stack m \<rparr>)"
  by (simp add: exec_instr_def)

lemma exec_LOAD_ATTR:
  "stack m = Val obj # st \<Longrightarrow>
   exec_instr h code ''LOAD_ATTR'' arg m =
     (case getattr h obj arg of
        Inr v \<Rightarrow> Next (m\<lparr> pc := pc m + 1, stack := Val v # st \<rparr>)
      | Inl e \<Rightarrow> Raise e (m\<lparr> stack := st \<rparr>))"
  by (simp add: exec_instr_def)

lemma exec_BINARY_SUBSCR:
  "stack m = Val key # Val obj # st \<Longrightarrow>
   exec_instr h code ''BINARY_SUBSCR'' arg m =
     (case getitem h obj key of
        Inr v \<Rightarrow> Next (m\<lparr> pc := pc m + 1, stack := Val v # st \<rparr>)
      | Inl e \<Rightarrow> Raise e (m\<lparr> stack := st \<rparr>))"
  by (simp add: exec_instr_def)

lemma exec_STORE_FAST:
  "stack m = Val v # st \<Longrightarrow>
   exec_instr h code ''STORE_FAST'' arg m =
     Next (m\<lparr> pc := pc m + 1, stack := st, fast := AList.update arg v (fast m) \<rparr>)"
  by (simp add: exec_instr_def)

lemma exec_POP_BLOCK:
  "blocks m = Try_block l level # bs \<Longrightarrow>
   exec_instr h code ''POP_BLOCK'' arg m =
     Next (m\<lparr> pc := pc m + 1, stack := unwind_to level (stack m), blocks := bs \<rparr>)"
  by (simp add: exec_instr_def)

lemma exec_JUMP_FORWARD:
  "label_index l code = Some i \<Longrightarrow>
   exec_instr h code ''JUMP_FORWARD'' (PLabel l) m = Next (m\<lparr> pc := i \<rparr>)"
  by (simp add: exec_instr_def jump_def)

lemma exec_DUP_TOP:
  "stack m = x # st \<Longrightarrow>
   exec_instr h code ''DUP_TOP'' arg m = Next (m\<lparr> pc := pc m + 1, stack := x # x # st \<rparr>)"
  by (simp add: exec_instr_def)

lemma exec_COMPARE_OP:
  "stack m = Val (PExcClass c) # Exc_type c' # st \<Longrightarrow>
   exec_instr h code ''COMPARE_OP'' (PCompare ''EXC_MATCH'') m =
     Next (m\<lparr> pc := pc m + 1, stack := Flag (exc_matches h c' c) # st \<rparr>)"
  by (simp add: exec_instr_def)

lemma exec_POP_JUMP_IF_FALSE_True:
  "stack m = Flag True # st \<Longrightarrow>
   exec_instr h code ''POP_JUMP_IF_FALSE'' arg m = Next (m\<lparr> pc := pc m + 1, stack := st \<rparr>)"
  by (simp add: exec_instr_def)

lemma exec_POP_JUMP_IF_FALSE_False:
  "stack m = Flag False # st \<Longrightarrow> label_index l code = Some i \<Longrightarrow>
   exec_instr h code ''POP_JUMP_IF_FALSE'' (PLabel l) m = Next (m\<lparr> stack := st, pc := i \<rparr>)"
  by (simp add: exec_instr_def jump_def)

lemma exec_POP_TOP:
  "stack m = x # st \<Longrightarrow>
   exec_instr h code ''POP_TOP'' arg m = Next (m\<lparr> pc := pc m + 1, stack := st \<rparr>)"
  by (simp add: exec_instr_def)

lemma exec_CALL_FUNCTION:
  "stack m = Val a2 # Val (PFrame n) # Val PLoadName # st \<Longrightarrow> frame_object h n = Some fr \<Longrightarrow>
   exec_instr h code ''CALL_FUNCTION'' (PInt 2) m =
     (case load_name fr a2 of
        Inr v \<Rightarrow> Next (m\<lparr> pc := pc m + 1, stack := Val v # st \<rparr>)
      | Inl e \<Rightarrow> Raise e (m\<lparr> stack := st \<rparr>))"
  by (simp add: exec_instr_def)

lemma exec_POP_EXCEPT:
  "blocks m = Handler_block level # bs \<Longrightarrow>
   exec_instr h code ''POP_EXCEPT'' arg m =
     Next (m\<lparr> pc := pc m + 1, stack := unwind_to level (stack m), blocks := bs \<rparr>)"
  by (simp add: exec_instr_def)

lemma exec_END_FINALLY:
  "stack m = Exc_type c # Exc_value e # Exc_traceback # st \<Longrightarrow>
   exec_instr h code ''END_FINALLY'' arg m = Raise e (m\<lparr> stack := st \<rparr>)"
  by (simp add: exec_instr_def)

lemmas exec_simps = exec_SETUP_EXCEPT exec_LOAD_FAST exec_LOAD_CONST exec_LOAD_ATTR
  exec_BINARY_SUBSCR exec_STORE_FAST exec_POP_BLOCK exec_JUMP_FORWARD exec_DUP_TOP
  exec_COMPARE_OP exec_POP_JUMP_IF_FALSE_True exec_POP_JUMP_IF_FALSE_False exec_POP_TOP
  exec_CALL_FUNCTION exec_POP_EXCEPT exec_END_FINALLY

lemma guarded_attr_labels:
  "label_index (New_label n) (guarded_attr n arg fid) = Some 6"
  "label_index (New_label (n + 1)) (guarded_attr n arg fid) = Some 21"
  "label_index (New_label (n + 2)) (guarded_attr n arg fid) = Some 23"
  "label_index (New_label (Suc n)) (guarded_attr n arg fid) = Some 21"
  "label_index (New_label (Suc (Suc n))) (guarded_attr n arg fid) = Some 23"
  by (simp_all add: guarded_attr_def)

lemma guarded_attr_length: "length (guarded_attr n arg fid) = 25"
  by (simp add: guarded_attr_def)

lemma guarded_attr_nth:
  "guarded_attr n arg fid ! 0 = Instr ''SETUP_EXCEPT'' (PLabel (New_label n))"
  "guarded_attr n arg fid ! 1 = Instr ''LOAD_FAST'' (PStr ''_[namespace]'')"
  "guarded_attr n arg fid ! Suc 0 = Instr ''LOAD_FAST'' (PStr ''_[namespace]'')"
  "guarded_attr n arg fid ! 2 = Instr ''LOAD_ATTR'' arg"
  "guarded_attr n arg fid ! 3 = Instr ''STORE_FAST'' (PStr ''_[ns_value]'')"
  "guarded_attr n arg fid ! 4 = Instr ''POP_BLOCK'' PUnset"
  "guarded_attr n arg fid ! 5 = Instr ''JUMP_FORWARD'' (PLabel (New_label (n + 2)))"
  "guarded_attr n arg fid ! 6 = Label (New_label n)"
  "guarded_attr n arg fid ! 7 = Instr ''DUP_TOP'' PUnset"
  "guarded_attr n arg fid ! 8 = Instr ''LOAD_CONST'' (PExcClass C_AttributeError)"
  "guarded_attr n arg fid ! 9 = Instr ''COMPARE_OP'' (PCompare ''EXC_MATCH'')"
  "guarded_attr n arg fid ! 10 = Instr ''POP_JUMP_IF_FALSE'' (PLabel (New_label (n + 1)))"
  "guarded_attr n arg fid ! 11 = Instr ''POP_TOP'' PUnset"
  "guarded_attr n arg fid ! 12 = Instr ''POP_TOP'' PUnset"
  "guarded_attr n arg fid ! 13 = Instr ''POP_TOP'' PUnset"
  "guarded_attr n arg fid ! 14 = Instr ''LOAD_CONST'' PLoadName"
  "guarded_attr n arg fid ! 15 = Instr ''LOAD_CONST'' (PFrame fid)"
  "guarded_attr n arg fid ! 16 = Instr ''LOAD_CONST'' arg"
  "guarded_attr n arg fid ! 17 = Instr ''CALL_FUNCTION'' (PInt 2)"
  "guarded_attr n arg fid ! 18 = Instr ''STORE_FAST'' (PStr ''_[ns_value]'')"
  "guarded_attr n arg fid ! 19 = Instr ''POP_EXCEPT'' PUnset"
  "guarded_attr n arg fid ! 20 = Instr ''JUMP_FORWARD'' (PLabel (New_label (n + 2)))"
  "guarded_attr n arg fid ! 21 = Label (New_label (n + 1))"
  "guarded_attr n arg fid ! 22 = Instr ''END_FINALLY'' PUnset"
  "guarded_attr n arg fid ! 23 = Label (New_label (n + 2))"
  "guarded_attr n arg fid ! 24 = Instr ''LOAD_FAST'' (PStr ''_[ns_value]'')"
  by (simp_all add: guarded_attr_def)

lemmas run_attr_rules = run_numeral step_def exec_simps guarded_attr_labels
  guarded_attr_length guarded_attr_nth unwind_to_same unwind_to_3 update_conv'

lemma guarded_attr_found:
  assumes "map_of fl (PStr ''_[namespace]'') = Some ns" and "getattr h ns arg = Inr v"
  shows "run h (guarded_attr n arg fid) 40 \<lparr> pc = 0, stack = st, blocks = [], fast = fl \<rparr> =
      Done \<lparr> pc = 25, stack = Val v # st, blocks = [],
              fast = AList.update (PStr ''_[ns_value]'') v fl \<rparr>"
  using assms by (simp add: run_attr_rules Let_def del: One_nat_def)

lemma guarded_attr_fallback:
  assumes "map_of fl (PStr ''_[namespace]'') = Some ns" and "getattr h ns arg = Inl e"
    and "exc_matches h (exc_type e) C_AttributeError"
    and "frame_object h fid = Some frame" and "load_name frame arg = Inr v"
  shows "run h (guarded_attr n arg fid) 40 \<lparr> pc = 0, stack = st, blocks = [], fast = fl \<rparr> =
      Done \<lparr> pc = 25, stack = Val v # st, blocks = [],
              fast = AList.update (PStr ''_[ns_value]'') v fl \<rparr>"
  using assms by (simp add: run_attr_rules Let_def del: One_nat_def)

lemma guarded_attr_unresolved:
  assumes "map_of fl (PStr ''_[namespace]'') = Some ns" and "getattr h ns arg = Inl e"
    and "exc_matches h (exc_type e) C_AttributeError"
    and "frame_object h fid = Some frame" and "load_name frame arg = Inl e'"
  shows "run h (guarded_attr n arg fid) 40 \<lparr> pc = 0, stack = st, blocks = [], fast = fl \<rparr> =
      Propagate e'"
  using assms by (simp add: run_attr_rules Let_def del: One_nat_def)

lemma guarded_attr_other:
  assumes "map_of fl (PStr ''_[namespace]'') = Some ns" and "getattr h ns arg = Inl e"
    and "\<not> exc_matches h (exc_type e) C_AttributeError"
  shows "run h (guarded_attr n arg fid) 40 \<lparr> pc = 0, stack = st, blocks = [], fast = fl \<rparr> =
      Propagate e"
  using assms by (simp add: run_attr_rules Let_def del: One_nat_def)

lemma guarded_key_labels:
  "label_index (New_label n) (guarded_key n arg fid) = Some 7"
  "label_index (New_label (n + 1)) (guarded_key n arg fid) = Some 22"
  "label_index (New_label (n + 2)) (guarded_key n arg fid) = Some 24"
  "label_index (New_label (Suc n)) (guarded_key n arg fid) = Some 22"
  "label_index (New_label (Suc (Suc n))) (guarded_key n arg fid) = Some 24"
  by (simp_all add: guarded_key_def)

lemma guarded_key_length: "length (guarded_key n arg fid) = 26"
  by (simp add: guarded_key_def)

lemma guarded_key_nth:
  "guarded_key n arg fid ! 0 = Instr ''SETUP_EXCEPT'' (PLabel (New_label n))"
  "guarded_key n arg fid ! 1 = Instr ''LOAD_FAST'' (PStr ''_[namespace]'')"
  "guarded_key n arg fid ! Suc 0 = Instr ''LOAD_FAST'' (PStr ''_[namespace]'')"
  "guarded_key n arg fid ! 2 = Instr ''LOAD_CONST'' arg"
  "guarded_key n arg fid ! 3 = Instr ''BINARY_SUBSCR'' PUnset"
  "guarded_key n arg fid ! 4 = Instr ''STORE_FAST'' (PStr ''_[ns_value]'')"
  "guarded_key n arg fid ! 5 = Instr ''POP_BLOCK'' PUnset"
  "guarded_key n arg fid ! 6 = Instr ''JUMP_FORWARD'' (PLabel (New_label (n + 2)))"
  "guarded_key n arg fid ! 7 = Label (New_label n)"
  "guarded_key n arg fid ! 8 = Instr ''DUP_TOP'' PUnset"
  "guarded_key n arg fid ! 9 = Instr ''LOAD_CONST'' (PExcClass C_KeyError)"
  "guarded_key n arg fid ! 10 = Instr ''COMPARE_OP'' (PCompare ''EXC_MATCH'')"
  "guarded_key n arg fid ! 11 = Instr ''POP_JUMP_IF_FALSE'' (PLabel (New_label (n + 1)))"
  "guarded_key n arg fid ! 12 = Instr ''POP_TOP'' PUnset"
  "guarded_key n arg fid ! 13 = Instr ''POP_TOP'' PUnset"
  "guarded_key n arg fid ! 14 = Instr ''POP_TOP'' PUnset"
  "guarded_key n arg fid ! 15 = Instr ''LOAD_CONST'' PLoadName"
  "guarded_key n arg fid ! 16 = Instr ''LOAD_CONST'' (PFrame fid)"
  "guarded_key n arg fid ! 17 = Instr ''LOAD_CONST'' arg"
  "guarded_key n arg fid ! 18 = Instr ''CALL_FUNCTION'' (PInt 2)"
  "guarded_key n arg fid ! 19 = Instr ''STORE_FAST'' (PStr ''_[ns_value]'')"
  "guarded_key n arg fid ! 20 = Instr ''POP_EXCEPT'' PUnset"
  "guarded_key n arg fid ! 21 = Instr ''JUMP_FORWARD'' (PLabel (New_label (n + 2)))"
  "guarded_key n arg fid ! 22 = Label (New_label (n + 1))"
  "guarded_key n arg fid ! 23 = Instr ''END_FINALLY'' PUnset"
  "guarded_key n arg fid ! 24 = Label (New_label (n + 2))"
  "guarded_key n arg fid ! 25 = Instr ''LOAD_FAST'' (PStr ''_[ns_value]'')"
  by (simp_all add: guarded_key_def)

lemmas run_key_rules = run_numeral step_def exec_simps guarded_key_labels
  guarded_key_length guarded_key_nth unwind_to_same unwind_to_3 update_conv'

lemma guarded_key_found:
  assumes "map_of fl (PStr ''_[namespace]'') = Some ns" and "getitem h ns arg = Inr v"
  shows "run h (guarded_key n arg fid) 40 \<lparr> pc = 0, stack = st, blocks = [], fast = fl \<rparr> =
      Done \<lparr> pc = 26, stack = Val v # st, blocks = [],
              fast = AList.update (PStr ''_[ns_value]'') v fl \<rparr>"
  using assms by (simp add: run_key_rules Let_def del: One_nat_def)

lemma guarded_key_fallback:
  assumes "map_of fl (PStr ''_[namespace]'') = Some ns" and "getitem h ns arg = Inl e"
    and "exc_matches h (exc_type e) C_KeyError"
    and "frame_object h fid = Some frame" and "load_name frame arg = Inr v"
  shows "run h (guarded_key n arg fid) 40 \<lparr> pc = 0, stack = st, blocks = [], fast = fl \<rparr> =
      Done \<lparr> pc = 26, stack = Val v # st, blocks = [],
              fast = AList.update (PStr ''_[ns_value]'') v fl \<rparr>"
  using assms by (simp add: run_key_rules Let_def del: One_nat_def)

lemma guarded_key_unresolved:
  assumes "map_of fl (PStr ''_[namespace]'') = Some ns" and "getitem h ns arg = Inl e"
    and "exc_matches h (exc_type e) C_KeyError"
    and "frame_object h fid = Some frame" and "load_name frame arg = Inl e'"
  shows "run h (guarded_key n arg fid) 40 \<lparr> pc = 0, stack = st, blocks = [], fast = fl \<rparr> =
      Propagate e'"
  using assms by (simp add: run_key_rules Let_def del: One_nat_def)

lemma guarded_key_other:
  assumes "map_of fl (PStr ''_[namespace]'') = Some ns" and "getitem h ns arg = Inl e"
    and "\<not> exc_matches h (exc_type e) C_KeyError"
  shows "run h (guarded_key n arg fid) 40 \<lparr> pc = 0, stack = st, blocks = [], fast = fl \<rparr> =
      Propagate e"
  using assms by (simp add: run_key_rules Let_def del: One_nat_def)

lemma find_replacements_error:
  "find_replacements replace frame n i xs = Inl e \<longleftrightarrow> expand replace frame n xs = Inl e"
proof (induction xs arbitrary: n i)
  case Nil
  show ?case by simp
next
  case (Cons x xs)
  show ?case
  proof (cases "replace n x frame")
    case (Inl e')
    then show ?thesis by simp
  next
    case (Inr p)
    obtain repl n' where p: "p = (repl, n')" by (cases p)
    have ih: "find_replacements replace frame n' (Suc i) xs = Inl e \<longleftrightarrow>
        expand replace frame n' xs = Inl e" by (rule Cons.IH)
    show ?thesis
      using Inr p ih
      by (cases "find_replacements replace frame n' (Suc i) xs";
          cases "expand replace frame n' xs") simp_all
  qed
qed

lemma splice_expand:
  "find_replacements replace frame n i xs = Inr to_replace \<Longrightarrow>
   expand replace frame n xs = Inr out \<Longrightarrow> length pre = i + offset \<Longrightarrow>
   splice to_replace offset (pre @ xs) = pre @ out"
proof (induction xs arbitrary: n i to_replace out pre offset)
  case Nil
  then show ?case by simp
next
  case (Cons x xs)
  from Cons.prems(1) obtain repl n' tr where
    r: "replace n x frame = Inr (repl, n')"
    and f: "find_replacements replace frame n' (Suc i) xs = Inr tr"
    and t: "to_replace = (case repl of None \<Rightarrow> tr
                          | Some r \<Rightarrow> if r = [] then tr else (i, r) # tr)"
    by (auto split: sum.splits prod.splits)
  from Cons.prems(2) r obtain out' where
    e: "expand replace frame n' xs = Inr out'"
    and o: "out = (case repl of None \<Rightarrow> [x] | Some r \<Rightarrow> if r = [] then [x] else r) @ out'"
    by (auto split: sum.splits)
  show ?case
  proof (cases "repl = None \<or> repl = Some []")
    case True
    have "length (pre @ [x]) = Suc i + offset" using Cons.prems(3) by simp
    from Cons.IH [OF f e this] True t o show ?thesis by auto
  next
    case False
    then obtain r where rp: "repl = Some r" and ne: "r \<noteq> []" by (cases repl) auto
    have len: "length (pre @ r) = Suc i + (offset + length r - 1)"
      using Cons.prems(3) ne by (cases r) simp_all
    have "splice to_replace offset (pre @ x # xs)
        = splice tr (offset + length r - 1) ((pre @ r) @ xs)"
      using t rp ne Cons.prems(3) by simp
    also have "\<dots> = (pre @ r) @ out'" by (rule Cons.IH [OF f e len])
    finally show ?thesis using o rp ne by simp
  qed
qed

lemma namespace_rewrite_expand:
  "namespace_rewrite replace frame bc =
     expand replace frame 0 (bc @ [Instr ''LOAD_CONST'' PNone, Instr ''RETURN_VALUE'' PUnset])"
proof -
  let ?f = "bc @ [Instr ''LOAD_CONST'' PNone, Instr ''RETURN_VALUE'' PUnset]"
  show ?thesis
  proof (cases "find_replacements replace frame 0 0 ?f")
    case (Inl e)
    then show ?thesis
      using find_replacements_error [of replace frame 0 0 ?f e]
      by (simp add: namespace_rewrite_def)
  next
    case (Inr tr)
    then obtain out where e: "expand replace frame 0 ?f = Inr out"
      using find_replacements_error [of replace frame 0 0 ?f]
      by (cases "expand replace frame 0 ?f") auto
    from splice_expand [OF Inr e, of "[]" 0] have "splice tr 0 ?f = out" by simp
    with Inr e show ?thesis by (simp add: namespace_rewrite_def)
  qed
qed

lemma make_instr_const:
  "make_instr ''LOAD_CONST'' arg =
     (case arg of PLabel l \<Rightarrow> Inl (Exc C_TypeError arg) | _ \<Rightarrow> Inr (Instr ''LOAD_CONST'' arg))"
  by (cases arg) (simp_all add: make_instr_def check_arg_def hasfree_def haslocal_def hasname_def)

lemma make_instr_attr:
  "name \<in> set [''LOAD_ATTR'', ''STORE_ATTR'', ''DELETE_ATTR''] \<Longrightarrow>
   make_instr name arg = (if is_str arg then Inr (Instr name arg) else Inl (Exc C_TypeError arg))"
  by (auto simp: make_instr_def check_arg_def hasfree_def haslocal_def hasname_def)

text \<open>
  The replacement of a single instruction whose argument is a name.  In both styles a local
  or name store is replaced by the load of the target followed by the attribute store (the
  constant load and the key store, respectively) under the same name, and a load of a local,
  name or global variable is replaced by the guarded sequence.
\<close>

lemma namespace_replace_load:
  "name \<in> set [''LOAD_FAST'', ''LOAD_NAME'', ''LOAD_GLOBAL''] \<Longrightarrow>
   namespace_replace_opcode n (Instr name (PStr s)) frame
     = Inr (Some (guarded_attr n (PStr s) (f_id frame)), n + 3)"
  by (auto simp: namespace_replace_opcode_def replace_opcode_def guarded_attr_def Let_def
      made_def make_instr_attr make_instr_const is_str_def)

lemma keyspace_replace_load:
  "name \<in> set [''LOAD_FAST'', ''LOAD_NAME'', ''LOAD_GLOBAL''] \<Longrightarrow>
   keyspace_replace_opcode n (Instr name (PStr s)) frame
     = Inr (Some (guarded_key n (PStr s) (f_id frame)), n + 3)"
  by (auto simp: keyspace_replace_opcode_def replace_opcode_def guarded_key_def Let_def
      made_def make_instr_const)

lemma replace_store:
  "name \<in> set [''STORE_FAST'', ''STORE_NAME''] \<Longrightarrow>
   namespace_replace_opcode n (Instr name (PStr s)) frame
     = Inr (Some [Instr ''LOAD_FAST'' (PStr ''_[namespace]''), Instr ''STORE_ATTR'' (PStr s)], n) \<and>
   keyspace_replace_opcode n (Instr name (PStr s)) frame
     = Inr (Some [Instr ''LOAD_FAST'' (PStr ''_[namespace]''), Instr ''LOAD_CONST'' (PStr s),
                  Instr ''STORE_SUBSCR'' PUnset], n)"
  by (auto simp: namespace_replace_opcode_def keyspace_replace_opcode_def replace_opcode_def
      made_def make_instr_attr make_instr_const is_str_def)

text \<open>A load of a closure variable carries a cell object, and the attribute style cannot make
  its \<open>LOAD_ATTR\<close> instruction from it.\<close>

lemma namespace_replace_cell:
  "is_cell arg \<Longrightarrow>
   namespace_replace_opcode n (Instr ''LOAD_DEREF'' arg) frame = Inl (Exc C_TypeError arg)"
  by (cases arg)
     (simp_all add: namespace_replace_opcode_def replace_opcode_def Let_def made_def
        make_instr_attr is_str_def is_cell_def)

text \<open>The key style makes its constant from the cell object and subscripts the target with the
  object, not with the name.\<close>

lemma keyspace_replace_cell:
  "is_cell arg \<Longrightarrow>
   keyspace_replace_opcode n (Instr ''LOAD_DEREF'' arg) frame
     = Inr (Some (guarded_key n arg (f_id frame)), n + 3)"
  by (cases arg)
     (simp_all add: keyspace_replace_opcode_def replace_opcode_def guarded_key_def Let_def
        made_def make_instr_const is_cell_def)

lemma replace_label:
  "namespace_replace_opcode n (Label l) frame = Inl (Exc C_AttributeError (PStr ''name''))"
  "keyspace_replace_opcode n (Label l) frame = Inl (Exc C_AttributeError (PStr ''name''))"
  by (simp_all add: namespace_replace_opcode_def keyspace_replace_opcode_def replace_opcode_def)

text \<open>An element for which \<open>_replace_opcode\<close> raises, whatever the number of labels made
  so far, makes the rewriting of every sequence that holds it raise.\<close>

lemma expand_fails:
  "b \<in> set xs \<Longrightarrow> \<forall>n. \<exists>e. replace n b frame = Inl e \<Longrightarrow>
   \<exists>e. expand replace frame n xs = Inl e"
proof (induction xs arbitrary: n)
  case Nil
  then show ?case by simp
next
  case (Cons x xs)
  show ?case
  proof (cases "replace n x frame")
    case (Inl e)
    then show ?thesis by simp
  next
    case (Inr p)
    obtain r n' where p: "p = (r, n')" by (cases p)
    from Inr Cons.prems have "b \<noteq> x" by (metis Inl_Inr_False)
    with Cons.prems have "b \<in> set xs" by simp
    from Cons.IH [OF this Cons.prems(2), of n'] obtain e where
      "expand replace frame n' xs = Inl e" by blast
    with Inr p show ?thesis by simp
  qed
qed

lemma namespace_rewrite_fails:
  assumes "b \<in> set bc" and "\<forall>n. \<exists>e. replace n b frame = Inl e"
  shows "\<exists>e. namespace_rewrite replace frame bc = Inl e"
proof -
  let ?f = "bc @ [Instr ''LOAD_CONST'' PNone, Instr ''RETURN_VALUE'' PUnset]"
  from assms(1) have m: "b \<in> set ?f" by simp
  have "\<exists>e. expand replace frame 0 ?f = Inl e"
    using m assms(2) by (rule expand_fails [of b ?f replace frame 0])
  then show ?thesis
    by (simp add: namespace_rewrite_expand)
qed

lemma run_guarded_attr:
  assumes "map_of fl (PStr ''_[namespace]'') = Some ns"
    and "frame_object h (f_id frame) = Some frame"
  shows "run h (guarded_attr n arg (f_id frame)) 40
           \<lparr> pc = 0, stack = st, blocks = [], fast = fl \<rparr>
     = guarded_outcome (length (guarded_attr n arg (f_id frame))) st fl
         (fallback h C_AttributeError frame arg (getattr h ns arg))"
proof (cases "getattr h ns arg")
  case (Inr v)
  with assms show ?thesis
    by (simp add: guarded_attr_found guarded_attr_length guarded_outcome_def fallback_def)
next
  case (Inl e)
  show ?thesis
  proof (cases "exc_matches h (exc_type e) C_AttributeError")
    case False
    with assms Inl show ?thesis
      by (simp add: guarded_attr_other guarded_outcome_def fallback_def)
  next
    case True
    show ?thesis
    proof (cases "load_name frame arg")
      case (Inl e')
      with assms \<open>getattr h ns arg = Inl e\<close> True show ?thesis
        by (simp add: guarded_attr_unresolved guarded_outcome_def fallback_def)
    next
      case (Inr v)
      with assms \<open>getattr h ns arg = Inl e\<close> True show ?thesis
        by (simp add: guarded_attr_fallback guarded_attr_length guarded_outcome_def
            fallback_def)
    qed
  qed
qed

lemma run_guarded_key:
  assumes "map_of fl (PStr ''_[namespace]'') = Some ns"
    and "frame_object h (f_id frame) = Some frame"
  shows "run h (guarded_key n arg (f_id frame)) 40
           \<lparr> pc = 0, stack = st, blocks = [], fast = fl \<rparr>
     = guarded_outcome (length (guarded_key n arg (f_id frame))) st fl
         (fallback h C_KeyError frame arg (getitem h ns arg))"
proof (cases "getitem h ns arg")
  case (Inr v)
  with assms show ?thesis
    by (simp add: guarded_key_found guarded_key_length guarded_outcome_def fallback_def)
next
  case (Inl e)
  show ?thesis
  proof (cases "exc_matches h (exc_type e) C_KeyError")
    case False
    with assms Inl show ?thesis
      by (simp add: guarded_key_other guarded_outcome_def fallback_def)
  next
    case True
    show ?thesis
    proof (cases "load_name frame arg")
      case (Inl e')
      with assms \<open>getitem h ns arg = Inl e\<close> True show ?thesis
        by (simp add: guarded_key_unresolved guarded_outcome_def fallback_def)
    next
      case (Inr v)
      with assms \<open>getitem h ns arg = Inl e\<close> True show ?thesis
        by (simp add: guarded_key_fallback guarded_key_length guarded_outcome_def
            fallback_def)
    qed
  qed
qed

text \<open>
  What the replacements do.  In both styles a local or name store of a name is replaced by
  the load of the target followed by the attribute store (the constant load and the key
  store, respectively) under the same name.  A load of a local, name or global variable is
  replaced by a sequence which, run on the machine with the target in its slot, leaves on the
  stack the attribute (the item) of the target when the access succeeds; when the access
  raises an exception that matches \<open>AttributeError\<close> (\<open>KeyError\<close>) it leaves the value that
  \<open>load_name\<close> finds for the name in the original frame, or raises what \<open>load_name\<close> raises;
  and when the access raises any other exception, that exception leaves the sequence.  When
  the first loop of \<open>namespace.__exit__\<close> raises nothing, the two loops put each replacement in
  the place of its instruction, in order, and keep every other instruction.
\<close>

lemma guarded_load_runs:
  assumes "name \<in> set [''LOAD_FAST'', ''LOAD_NAME'', ''LOAD_GLOBAL'']"
    and "map_of fl (PStr ''_[namespace]'') = Some target"
    and "frame_object h (f_id frame) = Some frame"
  shows "\<exists>code. namespace_replace_opcode n (Instr name (PStr s)) frame = Inr (Some code, n + 3) \<and>
         run h code 40 \<lparr> pc = 0, stack = st, blocks = [], fast = fl \<rparr>
           = guarded_outcome (length code) st fl
               (fallback h C_AttributeError frame (PStr s) (getattr h target (PStr s)))"
    and "\<exists>code. keyspace_replace_opcode n (Instr name (PStr s)) frame = Inr (Some code, n + 3) \<and>
         run h code 40 \<lparr> pc = 0, stack = st, blocks = [], fast = fl \<rparr>
           = guarded_outcome (length code) st fl
               (fallback h C_KeyError frame (PStr s) (getitem h target (PStr s)))"
  using namespace_replace_load [OF assms(1)] run_guarded_attr [OF assms(2,3)]
    keyspace_replace_load [OF assms(1)] run_guarded_key [OF assms(2,3)]
  by blast+

lemma guarded_load_example:
  "\<exists>code. namespace_replace_opcode 0 (Instr ''LOAD_NAME'' (PStr ''y'')) frame0
        = Inr (Some code, 3) \<and>
      run host0 code 40 machine0 =
        Done \<lparr> pc = 25, stack = [Val (PInt 2), Val (PInt 99)], blocks = [],
                fast = [(PStr ''_[namespace]'', PObj 7), (PStr ''_[ns_value]'', PInt 2)] \<rparr>"
proof -
  have h1: "''LOAD_NAME'' \<in> set [''LOAD_FAST'', ''LOAD_NAME'', ''LOAD_GLOBAL'']"
    by simp
  have h2: "map_of (fast machine0) (PStr ''_[namespace]'') = Some (PObj 7)"
    by (simp add: machine0_def)
  have h3: "frame_object host0 (f_id frame0) = Some frame0"
    by (simp add: host0_def frame0_def)
  have m: "machine0 = \<lparr> pc = 0, stack = [Val (PInt 99)], blocks = [], fast = fast machine0 \<rparr>"
    by (simp add: machine0_def)
  have v: "guarded_outcome (length (guarded_attr 0 (PStr ''y'') (f_id frame0)))
       [Val (PInt 99)] (fast machine0)
       (fallback host0 C_AttributeError frame0 (PStr ''y'') (getattr host0 (PObj 7) (PStr ''y'')))
     = Done \<lparr> pc = 25, stack = [Val (PInt 2), Val (PInt 99)], blocks = [],
                fast = [(PStr ''_[namespace]'', PObj 7), (PStr ''_[ns_value]'', PInt 2)] \<rparr>"
    by code_simp
  from guarded_load_runs(1) [OF h1 h2 h3, of 0 "''y''" "[Val (PInt 99)]"]
  obtain code where c: "namespace_replace_opcode 0 (Instr ''LOAD_NAME'' (PStr ''y'')) frame0
        = Inr (Some code, 0 + 3)"
    and r: "run host0 code 40 \<lparr> pc = 0, stack = [Val (PInt 99)], blocks = [],
                fast = fast machine0 \<rparr>
       = guarded_outcome (length code) [Val (PInt 99)] (fast machine0)
           (fallback host0 C_AttributeError frame0 (PStr ''y'')
              (getattr host0 (PObj 7) (PStr ''y'')))"
    by blast
  from c have "code = guarded_attr 0 (PStr ''y'') (f_id frame0)"
    using namespace_replace_load [OF h1, of 0 "''y''" frame0] by simp
  with r v m have "run host0 code 40 machine0 =
        Done \<lparr> pc = 25, stack = [Val (PInt 2), Val (PInt 99)], blocks = [],
                fast = [(PStr ''_[namespace]'', PObj 7), (PStr ''_[ns_value]'', PInt 2)] \<rparr>"
    by simp
  with c show ?thesis by auto
qed

lemma namespace_rewrite_example:
  "namespace_rewrite namespace_replace_opcode frame0
       [Instr ''LOAD_CONST'' (PInt 1), Instr ''STORE_FAST'' (PStr ''x'')]
     = Inr [Instr ''LOAD_CONST'' (PInt 1), Instr ''LOAD_FAST'' (PStr ''_[namespace]''),
            Instr ''STORE_ATTR'' (PStr ''x''), Instr ''LOAD_CONST'' PNone,
            Instr ''RETURN_VALUE'' PUnset]"
  by code_simp

text \<open>
  Claim C2.  The rewriting does not replace every store and load of a captured sequence: on
  two kinds of sequences it raises and replaces nothing.  The loop of \<open>namespace.__exit__\<close>
  passes every element of the sequence to \<open>_replace_opcode\<close>, which reads the name of the
  element first; a label has none, so in both styles a sequence that holds a label, as the
  body of every block with a branch or a loop does, raises.  And the load of a closure
  variable carries a cell object, from which the attribute style cannot make its
  \<open>LOAD_ATTR\<close> instruction: \<open>_replace_opcode\<close> raises \<open>TypeError\<close>, and so does the rewriting
  of every sequence that holds such a load.
\<close>

theorem target_redirect_failures:
  "(Label l \<in> set bc \<longrightarrow>
      (\<exists>e. namespace_rewrite namespace_replace_opcode frame bc = Inl e) \<and>
      (\<exists>e. namespace_rewrite keyspace_replace_opcode frame bc = Inl e)) \<and>
   (is_cell arg \<longrightarrow>
      namespace_replace_opcode n (Instr ''LOAD_DEREF'' arg) frame = Inl (Exc C_TypeError arg)) \<and>
   (is_cell arg \<and> Instr ''LOAD_DEREF'' arg \<in> set bc \<longrightarrow>
      (\<exists>e. namespace_rewrite namespace_replace_opcode frame bc = Inl e))"
proof (intro conjI impI)
  assume l: "Label l \<in> set bc"
  show "\<exists>e. namespace_rewrite namespace_replace_opcode frame bc = Inl e"
    by (rule namespace_rewrite_fails [OF l]) (simp add: replace_label)
  show "\<exists>e. namespace_rewrite keyspace_replace_opcode frame bc = Inl e"
    by (rule namespace_rewrite_fails [OF l]) (simp add: replace_label)
next
  assume "is_cell arg"
  then show "namespace_replace_opcode n (Instr ''LOAD_DEREF'' arg) frame
      = Inl (Exc C_TypeError arg)"
    by (rule namespace_replace_cell)
next
  assume a: "is_cell arg \<and> Instr ''LOAD_DEREF'' arg \<in> set bc"
  then have c: "is_cell arg" and m: "Instr ''LOAD_DEREF'' arg \<in> set bc" by simp_all
  show "\<exists>e. namespace_rewrite namespace_replace_opcode frame bc = Inl e"
    by (rule namespace_rewrite_fails [OF m]) (simp add: namespace_replace_cell [OF c])
qed

theorem target_redirect_failures_witness:
  "Label (Code_label 0)
     \<in> set [Instr ''LOAD_FAST'' (PStr ''c''), Instr ''POP_JUMP_IF_FALSE'' (PLabel (Code_label 0)),
            Instr ''LOAD_CONST'' (PInt 1), Instr ''STORE_FAST'' (PStr ''y''),
            Label (Code_label 0)] \<and>
   namespace_rewrite namespace_replace_opcode frame0
       [Instr ''LOAD_FAST'' (PStr ''c''), Instr ''POP_JUMP_IF_FALSE'' (PLabel (Code_label 0)),
        Instr ''LOAD_CONST'' (PInt 1), Instr ''STORE_FAST'' (PStr ''y''), Label (Code_label 0)]
     = Inl (Exc C_AttributeError (PStr ''name'')) \<and>
   is_cell (PFreeVar ''x'') \<and>
   Instr ''LOAD_DEREF'' (PFreeVar ''x'')
     \<in> set [Instr ''LOAD_DEREF'' (PFreeVar ''x''), Instr ''STORE_FAST'' (PStr ''y'')] \<and>
   namespace_rewrite namespace_replace_opcode frame0
       [Instr ''LOAD_DEREF'' (PFreeVar ''x''), Instr ''STORE_FAST'' (PStr ''y'')]
     = Inl (Exc C_TypeError (PFreeVar ''x''))"
proof -
  let ?bc = "[Instr ''LOAD_FAST'' (PStr ''c''), Instr ''POP_JUMP_IF_FALSE'' (PLabel (Code_label 0)),
        Instr ''LOAD_CONST'' (PInt 1), Instr ''STORE_FAST'' (PStr ''y''), Label (Code_label 0)]"
  let ?cl = "[Instr ''LOAD_DEREF'' (PFreeVar ''x''), Instr ''STORE_FAST'' (PStr ''y'')]"
  have h1: "Label (Code_label 0) \<in> set ?bc" by simp
  have h2: "is_cell (PFreeVar ''x'')" by (simp add: is_cell_def)
  have h3: "Instr ''LOAD_DEREF'' (PFreeVar ''x'') \<in> set ?cl" by simp
  from target_redirect_failures [of "Code_label 0" ?bc frame0 "PFreeVar ''x''" 0] h1
  obtain e where e: "namespace_rewrite namespace_replace_opcode frame0 ?bc = Inl e" by blast
  from target_redirect_failures [of "Code_label 0" ?cl frame0 "PFreeVar ''x''" 0] h2 h3
  obtain e' where e': "namespace_rewrite namespace_replace_opcode frame0 ?cl = Inl e'" by blast
  have v: "namespace_rewrite namespace_replace_opcode frame0 ?bc
      = Inl (Exc C_AttributeError (PStr ''name''))"
    by code_simp
  have w: "namespace_rewrite namespace_replace_opcode frame0 ?cl
      = Inl (Exc C_TypeError (PFreeVar ''x''))"
    by code_simp
  from e e' v w h1 h2 h3 show ?thesis by simp
qed

end
